theory Spec2Isabelle
  imports Complex_Main
begin

section \<open>Axes, configuration and the geometry interface\<close>

text \<open>
  The decomposition engine works on planar geometries supplied by a geometry library.
  The engine itself only observes a geometry through a handful of attributes (emptiness,
  validity, area, bounding box) and through the result of a set difference.  These
  observations are collected in a record of functions, so that every statement below holds
  for any geometry library.  Floating point numbers are modelled as real numbers.
\<close>

datatype axis = X | Y

text \<open>
  The free space \<open>region.difference(unary_union(obstacles))\<close> as the engine inspects it:
  empty, a polygon with its area, a multi-polygon with the areas of its parts, another
  collection with, for each member, whether it is polygonal and its area, or a failure of
  the library call.
\<close>

datatype free_space =
    EmptyGeom
  | Polygon real
  | MultiPolygon "real list"
  | Collection "(bool \<times> real) list"
  | GeomError

record ('r, 'o) axis_metrics =
  NWCRT :: real
  MSDU :: real
  m_division_point :: real
  m_subregion_left :: "'r \<times> 'o list"
  m_subregion_right :: "'r \<times> 'o list"

record ('r, 'o) geometry =
  geom_is_empty :: "'r \<Rightarrow> bool"
  geom_is_valid :: "'r \<Rightarrow> bool"
  geom_area :: "'r \<Rightarrow> real"
  obstacle_area :: "'o \<Rightarrow> real"
  geom_bounds :: "'r \<Rightarrow> real \<times> real \<times> real \<times> real"
  free_space_of :: "'r \<Rightarrow> 'o list \<Rightarrow> free_space"
  divide_at_optimum :: "'r \<Rightarrow> 'o list \<Rightarrow> string \<Rightarrow> axis \<Rightarrow>
      (real \<times> ('r \<times> 'o list) \<times> ('r \<times> 'o list)) option"
  region_wcrt :: "'r \<Rightarrow> 'o list \<Rightarrow> axis \<Rightarrow> real"

record config =
  max_depth :: int
  metrics :: string
  numerical_method :: string
  min_dimension_threshold :: real
  check_connectivity :: bool
  allow_fallback_axis :: bool
  mode :: string

definition DRONE_THRESHOLD :: real where
  "DRONE_THRESHOLD = 5"

definition COVERAGE_RATIO_STOP :: real where
  "COVERAGE_RATIO_STOP = 9 / 10"

section \<open>Optimal axis selection\<close>

text \<open>\<open>OptimalAxisSelection._square_measure\<close>.\<close>

definition square_measure :: "('r, 'o) geometry \<Rightarrow> 'r \<Rightarrow> real" where
  "square_measure G polygon =
     (if geom_is_empty G polygon then 1
      else
        (case geom_bounds G polygon of (minx, miny, maxx, maxy) \<Rightarrow>
           let w = maxx - minx; h = maxy - miny in
           if w < 1 / 10 ^ 9 \<and> h < 1 / 10 ^ 9 then 1
           else if w < 1 / 10 ^ 9 \<or> h < 1 / 10 ^ 9 then 0
           else w / h))"

text \<open>\<open>OptimalAxisSelection.calculate_squareness_metrics\<close> (second component, with the default \<open>eps\<close>).\<close>

definition calculate_squareness_metrics :: "real \<Rightarrow> real \<Rightarrow> real" where
  "calculate_squareness_metrics sq_left sq_right =
     1 / ((1 / 2) * ((sq_left - 1) ^ 2 + (sq_right - 1) ^ 2) + 1 / 10 ^ 9)"

text \<open>
  \<open>OptimalAxisSelection.evaluate_axis\<close>.  Building the strip manager and the divider,
  finding the division point and clipping the region are one call into the geometry
  interface (\<open>divide_at_optimum\<close>, \<open>None\<close> when any of these steps raises); the metrics are
  computed from its result as in the source.
\<close>

definition evaluate_axis ::
  "('r, 'o) geometry \<Rightarrow> string \<Rightarrow> 'r \<Rightarrow> 'o list \<Rightarrow> axis \<Rightarrow> ('r, 'o) axis_metrics option" where
  "evaluate_axis G method region obstacles ax =
     (case divide_at_optimum G region obstacles method ax of
        None \<Rightarrow> None
      | Some (dp, (R_left, left_obstacles), (R_right, right_obstacles)) \<Rightarrow>
          let wcrt_left = region_wcrt G R_left left_obstacles ax;
              wcrt_right = region_wcrt G R_right right_obstacles ax;
              sum_wcrt = wcrt_left + wcrt_right;
              diff_wcrt = \<bar>wcrt_left - wcrt_right\<bar>;
              sq_left = square_measure G R_left;
              sq_right = square_measure G R_right
          in Some \<lparr> NWCRT = (if sum_wcrt > 1 / 10 ^ 9 then diff_wcrt / sum_wcrt else 0),
                    MSDU = calculate_squareness_metrics sq_left sq_right,
                    m_division_point = dp,
                    m_subregion_left = (R_left, left_obstacles),
                    m_subregion_right = (R_right, right_obstacles) \<rparr>)"

text \<open>
  The choice made by \<open>OptimalAxisSelection.select_best_axis\<close> once both axes have been
  evaluated.
\<close>

definition choose_axis ::
  "real \<Rightarrow> ('r, 'o) axis_metrics \<Rightarrow> ('r, 'o) axis_metrics \<Rightarrow> axis" where
  "choose_axis tie_threshold metrics_x metrics_y =
     (let value_x = NWCRT metrics_x;
          value_y = NWCRT metrics_y;
          diff = \<bar>value_x - value_y\<bar>
      in if diff \<le> tie_threshold then
           (if MSDU metrics_x > MSDU metrics_y then X else Y)
         else
           (if value_x < value_y then X else Y))"

text \<open>
  \<open>OptimalAxisSelection.select_best_axis\<close>: the chosen axis, the metrics of both axes, and
  the division point and sub-regions of the chosen axis; \<open>None\<close> when evaluating an axis
  raises.
\<close>

definition select_best_axis ::
  "('r, 'o) geometry \<Rightarrow> string \<Rightarrow> real \<Rightarrow> 'r \<Rightarrow> 'o list \<Rightarrow>
     (axis \<times> (('r, 'o) axis_metrics \<times> ('r, 'o) axis_metrics) \<times> real
        \<times> ('r \<times> 'o list) \<times> ('r \<times> 'o list)) option" where
  "select_best_axis G method tie_threshold region obstacles =
     (case evaluate_axis G method region obstacles X of
        None \<Rightarrow> None
      | Some metrics_x \<Rightarrow>
          (case evaluate_axis G method region obstacles Y of
             None \<Rightarrow> None
           | Some metrics_y \<Rightarrow>
               let best_axis = choose_axis tie_threshold metrics_x metrics_y;
                   chosen_metrics = (case best_axis of X \<Rightarrow> metrics_x | Y \<Rightarrow> metrics_y)
               in Some (best_axis, (metrics_x, metrics_y), m_division_point chosen_metrics,
                        m_subregion_left chosen_metrics, m_subregion_right chosen_metrics)))"

section \<open>Hierarchical decomposition\<close>

text \<open>The mutable fields of a \<open>HierarchicalDecomposition\<close> object.\<close>

record ('r, 'o) hd_state =
  partitions :: "('r \<times> 'o list \<times> axis list \<times> bool) list"
  axis_stack :: "axis list"

definition axis_history :: "'r \<times> 'o list \<times> axis list \<times> bool \<Rightarrow> axis list" where
  "axis_history p = fst (snd (snd p))"

definition valid_flag :: "'r \<times> 'o list \<times> axis list \<times> bool \<Rightarrow> bool" where
  "valid_flag p = snd (snd (snd p))"

text \<open>\<open>self.partitions.append((region, obstacles, list(self.axis_stack), is_ok))\<close>.\<close>

definition store_partition ::
  "'r \<Rightarrow> 'o list \<Rightarrow> bool \<Rightarrow> ('r, 'o) hd_state \<Rightarrow> ('r, 'o) hd_state" where
  "store_partition region obstacles is_ok st =
     st\<lparr>partitions := partitions st @ [(region, obstacles, axis_stack st, is_ok)]\<rparr>"

text \<open>\<open>self.axis_stack.append(axis)\<close> and \<open>self.axis_stack.pop()\<close>.\<close>

definition push_axis :: "axis \<Rightarrow> ('r, 'o) hd_state \<Rightarrow> ('r, 'o) hd_state" where
  "push_axis ax st = st\<lparr>axis_stack := axis_stack st @ [ax]\<rparr>"

definition pop_axis :: "('r, 'o) hd_state \<Rightarrow> ('r, 'o) hd_state" where
  "pop_axis st = st\<lparr>axis_stack := butlast (axis_stack st)\<rparr>"

text \<open>\<open>HierarchicalDecomposition._compute_largest_free_space\<close>.\<close>

definition compute_largest_free_space :: "('r, 'o) geometry \<Rightarrow> 'r \<Rightarrow> 'o list \<Rightarrow> real" where
  "compute_largest_free_space G region obstacles =
     (case free_space_of G region obstacles of
        EmptyGeom \<Rightarrow> 0
      | Polygon a \<Rightarrow> a
      | MultiPolygon as \<Rightarrow> (case as of [] \<Rightarrow> 0 | b # bs \<Rightarrow> fold max bs b)
      | Collection gs \<Rightarrow> fold (\<lambda>(is_poly, a) max_area. if is_poly then max max_area a else max_area) gs 0
      | GeomError \<Rightarrow> 0)"

text \<open>\<open>HierarchicalDecomposition._has_single_connected_free_space\<close>.\<close>

definition has_single_connected_free_space :: "('r, 'o) geometry \<Rightarrow> 'r \<Rightarrow> 'o list \<Rightarrow> bool" where
  "has_single_connected_free_space G region obstacles =
     (compute_largest_free_space G region obstacles \<ge> DRONE_THRESHOLD)"

text \<open>\<open>HierarchicalDecomposition._is_subregion_valid\<close>.\<close>

definition is_subregion_valid :: "('r, 'o) geometry \<Rightarrow> config \<Rightarrow> 'r \<Rightarrow> 'o list \<Rightarrow> bool" where
  "is_subregion_valid G cfg region obstacles =
     (if geom_is_empty G region then False
      else if \<not> geom_is_valid G region then False
      else
        (case geom_bounds G region of (minx, miny, maxx, maxy) \<Rightarrow>
           let width = maxx - minx; height = maxy - miny in
           if width < min_dimension_threshold cfg \<or> height < min_dimension_threshold cfg then False
           else
             let region_area = geom_area G region;
                 obs_area_sum = sum_list (map (obstacle_area G) obstacles)
             in if obs_area_sum \<ge> region_area - 1 / 10 ^ 9 then False
                else
                  let coverage_ratio =
                        (if region_area > 1 / 10 ^ 12 then obs_area_sum / region_area else 1)
                  in if coverage_ratio \<ge> COVERAGE_RATIO_STOP
                          \<and> compute_largest_free_space G region obstacles < DRONE_THRESHOLD
                     then False
                     else if check_connectivity cfg
                          \<and> \<not> has_single_connected_free_space G region obstacles
                     then False
                     else True))"

text \<open>The coverage stop at the head of \<open>_decompose\<close>.\<close>

definition coverage_stop :: "('r, 'o) geometry \<Rightarrow> 'r \<Rightarrow> 'o list \<Rightarrow> bool" where
  "coverage_stop G region obstacles =
     (let region_area = geom_area G region;
          obs_area = sum_list (map (obstacle_area G) obstacles);
          coverage_ratio = (if region_area > 1 / 10 ^ 12 then obs_area / region_area else 1);
          free_area = region_area - obs_area;
          largest_hole_area = compute_largest_free_space G region obstacles
      in coverage_ratio \<ge> COVERAGE_RATIO_STOP
         \<and> free_area < DRONE_THRESHOLD \<and> largest_hole_area < DRONE_THRESHOLD)"

text \<open>The degenerate-cut test at the head of \<open>_attempt_partition\<close>.\<close>

definition degenerate_cut :: "('r, 'o) geometry \<Rightarrow> 'r \<Rightarrow> axis \<Rightarrow> real \<Rightarrow> bool" where
  "degenerate_cut G region ax dp =
     (case geom_bounds G region of (minx, miny, maxx, maxy) \<Rightarrow>
        (case ax of
           X \<Rightarrow> dp \<le> minx \<or> dp \<ge> maxx
         | Y \<Rightarrow> dp \<le> miny \<or> dp \<ge> maxy))"

text \<open>
  \<open>HierarchicalDecomposition._decompose\<close> and \<open>_attempt_partition\<close>.  The object state is
  passed in and returned; the axis selector is constructed with its default tie threshold
  \<open>1e-2\<close>.
\<close>

function decompose ::
    "('r, 'o) geometry \<Rightarrow> config \<Rightarrow> 'r \<Rightarrow> 'o list \<Rightarrow> int \<Rightarrow> ('r, 'o) hd_state
       \<Rightarrow> bool \<times> ('r, 'o) hd_state"
  and attempt_partition ::
    "('r, 'o) geometry \<Rightarrow> config \<Rightarrow> 'r \<Rightarrow> 'o list \<Rightarrow> axis \<Rightarrow> int \<Rightarrow> real
       \<Rightarrow> ('r \<times> 'o list) \<Rightarrow> ('r \<times> 'o list) \<Rightarrow> ('r, 'o) hd_state \<Rightarrow> bool \<times> ('r, 'o) hd_state"
  where
  "decompose G cfg region obstacles depth st =
    (if geom_is_empty G region then (False, st)
     else if coverage_stop G region obstacles then
       (True, store_partition region obstacles (is_subregion_valid G cfg region obstacles) st)
     else if depth \<ge> max_depth cfg then
       (is_subregion_valid G cfg region obstacles,
        store_partition region obstacles (is_subregion_valid G cfg region obstacles) st)
     else if \<not> is_subregion_valid G cfg region obstacles then (False, st)
     else
       (case select_best_axis G (numerical_method cfg) (1 / 100) region obstacles of
          None \<Rightarrow> (False, st)
        | Some (best_axis, overall, best_div_pt, subL, subR) \<Rightarrow>
            (case attempt_partition G cfg region obstacles best_axis depth best_div_pt subL subR st of
               (True, st1) \<Rightarrow> (True, st1)
             | (False, st1) \<Rightarrow>
                 (if allow_fallback_axis cfg then
                    (case select_best_axis G (numerical_method cfg) (1 / 100) region obstacles of
                       None \<Rightarrow> (False, st1)
                     | Some (fb_axis, fb_overall, fb_div_pt, fb_subL, fb_subR) \<Rightarrow>
                         if fb_axis = best_axis then (False, st1)
                         else attempt_partition G cfg region obstacles fb_axis depth
                                fb_div_pt fb_subL fb_subR st1)
                  else (False, st1)))))"
| "attempt_partition G cfg region obstacles ax depth dp subL subR st =
    (let st1 = push_axis ax st in
     if degenerate_cut G region ax dp then (False, pop_axis st1)
     else
       (case subL of (R_left, left_obs) \<Rightarrow>
        case subR of (R_right, right_obs) \<Rightarrow>
          let left_ok = is_subregion_valid G cfg R_left left_obs;
              right_ok = is_subregion_valid G cfg R_right right_obs
          in if \<not> left_ok \<and> \<not> right_ok then (False, pop_axis st1)
             else
               (case (if left_ok then decompose G cfg R_left left_obs (depth + 1) st1
                      else (False, st1)) of
                  (produced_left, st2) \<Rightarrow>
                    (case (if right_ok then decompose G cfg R_right right_obs (depth + 1) st2
                           else (False, st2)) of
                       (produced_right, st3) \<Rightarrow>
                         (produced_left \<or> produced_right, pop_axis st3)))))"
  by pat_completeness auto
termination
  by (relation "measure (\<lambda>x. case x of
           Inl (G, cfg, region, obstacles, depth, st) \<Rightarrow> 2 * nat (max_depth cfg - depth)
         | Inr (G, cfg, region, obstacles, ax, depth, dp, subL, subR, st) \<Rightarrow>
             2 * nat (max_depth cfg - depth - 1) + 1)") auto

declare decompose.simps [simp del] attempt_partition.simps [simp del]

text \<open>The state of a freshly constructed object.\<close>

definition initial_state :: "('r, 'o) hd_state" where
  "initial_state = \<lparr> partitions = [], axis_stack = [] \<rparr>"

text \<open>\<open>HierarchicalDecomposition.run\<close>, on a freshly constructed object.\<close>

definition run ::
  "('r, 'o) geometry \<Rightarrow> config \<Rightarrow> 'r \<Rightarrow> 'o list \<Rightarrow> ('r \<times> 'o list \<times> axis list \<times> bool) list" where
  "run G cfg region obstacles =
     (case decompose G cfg region obstacles 0 initial_state of
        (produced_any_valid, st) \<Rightarrow>
          if mode cfg = ''track_back'' \<and> \<not> produced_any_valid then
            partitions (store_partition region obstacles True st)
          else partitions st)"

section \<open>Auxiliary notions for the decomposition driver\<close>

text \<open>
  \<open>grows bound stack produced st st'\<close>: the state \<open>st'\<close> extends the partition list of \<open>st\<close>,
  by at least one record when \<open>produced\<close> holds, and every new record has an axis history that
  starts with \<open>stack\<close> and has at most \<open>bound\<close> entries.
\<close>

definition grows ::
  "nat \<Rightarrow> axis list \<Rightarrow> bool \<Rightarrow> ('r, 'o) hd_state \<Rightarrow> ('r, 'o) hd_state \<Rightarrow> bool" where
  "grows bound stack produced st st' =
     (\<exists>new. partitions st' = partitions st @ new \<and> (produced \<longrightarrow> new \<noteq> [])
        \<and> (\<forall>p \<in> set new. take (length stack) (axis_history p) = stack
                            \<and> length (axis_history p) \<le> bound))"


section \<open>Example geometries\<close>

text \<open>
  Axis-aligned rectangles \<open>(minx, miny, maxx, maxy)\<close> without obstacles, for which the balanced
  cut is the midpoint; used to run the driver on concrete inputs.
\<close>

type_synonym rect = "real \<times> real \<times> real \<times> real"

definition rect_area :: "rect \<Rightarrow> real" where
  "rect_area r = (case r of (x0, y0, x1, y1) \<Rightarrow> (x1 - x0) * (y1 - y0))"

definition midpoint_split :: "rect \<Rightarrow> axis \<Rightarrow> real \<times> (rect \<times> rect list) \<times> (rect \<times> rect list)" where
  "midpoint_split r ax =
     (case r of (x0, y0, x1, y1) \<Rightarrow>
        (case ax of
           X \<Rightarrow> ((x0 + x1) / 2, ((x0, y0, (x0 + x1) / 2, y1), []), (((x0 + x1) / 2, y0, x1, y1), []))
         | Y \<Rightarrow> ((y0 + y1) / 2, ((x0, y0, x1, (y0 + y1) / 2), []), ((x0, (y0 + y1) / 2, x1, y1), []))))"

definition rect_diagonal :: "rect \<Rightarrow> real" where
  "rect_diagonal r = (case r of (x0, y0, x1, y1) \<Rightarrow> sqrt ((x1 - x0) ^ 2 + (y1 - y0) ^ 2))"

definition rect_geometry :: "(rect, rect) geometry" where
  "rect_geometry =
     \<lparr> geom_is_empty = (\<lambda>r. False),
       geom_is_valid = (\<lambda>r. True),
       geom_area = rect_area,
       obstacle_area = rect_area,
       geom_bounds = (\<lambda>r. r),
       free_space_of = (\<lambda>r obs. Polygon (rect_area r)),
       divide_at_optimum = (\<lambda>r obs method ax. Some (midpoint_split r ax)),
       region_wcrt = (\<lambda>r obs ax. rect_diagonal r) \<rparr>"

definition example_config :: config where
  "example_config =
     \<lparr> max_depth = 1, metrics = ''NWCRT'', numerical_method = ''brent'',
       min_dimension_threshold = 1 / 1000, check_connectivity = False,
       allow_fallback_axis = True, mode = ''track_back'' \<rparr>"

definition example_region :: rect where
  "example_region = (0, 0, 100, 100)"

definition failing_geometry :: "(rect, rect) geometry" where
  "failing_geometry = rect_geometry \<lparr> divide_at_optimum := (\<lambda>r obs method ax. None) \<rparr>"

definition boundary_split :: "rect \<Rightarrow> axis \<Rightarrow> real \<times> (rect \<times> rect list) \<times> (rect \<times> rect list)" where
  "boundary_split r ax =
     (case r of (x0, y0, x1, y1) \<Rightarrow>
        (case ax of
           X \<Rightarrow> (x1, ((x0, y0, x1, y1), []), ((x1, y0, x1, y1), []))
         | Y \<Rightarrow> (y1, ((x0, y0, x1, y1), []), ((x0, y1, x1, y1), []))))"

definition boundary_geometry :: "(rect, rect) geometry" where
  "boundary_geometry =
     rect_geometry \<lparr> divide_at_optimum := (\<lambda>r obs method ax. Some (boundary_split r ax)) \<rparr>"

text \<open>The other axis, and the metrics of an axis in the pair returned by the selector.\<close>

definition other_axis :: "axis \<Rightarrow> axis" where
  "other_axis ax = (case ax of X \<Rightarrow> Y | Y \<Rightarrow> X)"

definition metrics_of ::
  "axis \<Rightarrow> ('r, 'o) axis_metrics \<times> ('r, 'o) axis_metrics \<Rightarrow> ('r, 'o) axis_metrics" where
  "metrics_of ax overall = (case ax of X \<Rightarrow> fst overall | Y \<Rightarrow> snd overall)"

text \<open>
  The aspect ratio and the MSDU as the specification defines them (sections 4.1 and 4.5):
  \<open>aspect_ratio(poly) = min(w/h, h/w)\<close>, with both sides at most \<open>\<epsilon>\<close> treated as \<open>1\<close> and one
  side at most \<open>\<epsilon>\<close> treated as \<open>0\<close>, and
  \<open>MSDU = 1 / (0.5 \<cdot> ((aspect(R_L) - 1)\<^sup>2 + (aspect(R_R) - 1)\<^sup>2) + \<epsilon>)\<close>, for rectangles.
\<close>

definition aspect_ratio_spec :: "rect \<Rightarrow> real" where
  "aspect_ratio_spec r =
     (case r of (minx, miny, maxx, maxy) \<Rightarrow>
        let w = maxx - minx; h = maxy - miny in
        if w \<le> 1 / 10 ^ 9 \<and> h \<le> 1 / 10 ^ 9 then 1
        else if w \<le> 1 / 10 ^ 9 \<or> h \<le> 1 / 10 ^ 9 then 0
        else min (w / h) (h / w))"

definition MSDU_spec :: "rect \<Rightarrow> rect \<Rightarrow> real" where
  "MSDU_spec R_L R_R =
     1 / ((1 / 2) * ((aspect_ratio_spec R_L - 1) ^ 2 + (aspect_ratio_spec R_R - 1) ^ 2) + 1 / 10 ^ 9)"


section \<open>Numerical solvers\<close>

text \<open>
  The exceptions the solvers and the divider can raise: the invalid-bracket error of Brent's
  method, a division by zero, the near-zero derivative error of Newton's method, and the
  error of the divider when there is no strip of interest.
\<close>

datatype solver_error =
    InvalidBracket
  | ZeroDivision
  | DerivativeNearZero
  | NoStripOfInterest

text \<open>Division of floating point numbers, which raises on a zero divisor.\<close>

definition py_div :: "real \<Rightarrow> real \<Rightarrow> solver_error + real" where
  "py_div x y = (if y = 0 then Inl ZeroDivision else Inr (x / y))"

text \<open>The inverse quadratic interpolation step and the secant step of \<open>solve_for_root_brent\<close>.\<close>

definition inverse_quadratic_step ::
  "real \<Rightarrow> real \<Rightarrow> real \<Rightarrow> real \<Rightarrow> real \<Rightarrow> real \<Rightarrow> solver_error + real" where
  "inverse_quadratic_step a b c fa fb fc =
     (case py_div (a * fb * fc) ((fa - fb) * (fa - fc)) of
        Inl e \<Rightarrow> Inl e
      | Inr t1 \<Rightarrow>
          (case py_div (b * fa * fc) ((fb - fa) * (fb - fc)) of
             Inl e \<Rightarrow> Inl e
           | Inr t2 \<Rightarrow>
               (case py_div (c * fa * fb) ((fc - fa) * (fc - fb)) of
                  Inl e \<Rightarrow> Inl e
                | Inr t3 \<Rightarrow> Inr (t1 + t2 + t3))))"

definition secant_step :: "real \<Rightarrow> real \<Rightarrow> real \<Rightarrow> real \<Rightarrow> solver_error + real" where
  "secant_step a b fa fb =
     (case py_div (fb * (b - a)) (fb - fa) of
        Inl e \<Rightarrow> Inl e
      | Inr q \<Rightarrow> Inr (b - q))"

text \<open>
  The variables \<open>a, b, c, fa, fb, fc\<close> of \<open>solve_for_root_brent\<close>.  The variables \<open>d\<close> and
  \<open>e\<close> of the source are written but never read and are left out.
\<close>

type_synonym brent_state = "real \<times> real \<times> real \<times> real \<times> real \<times> real"

text \<open>
  One pass through the body of the loop of \<open>solve_for_root_brent\<close> after the convergence
  test: the candidate \<open>s\<close>, the bisection fallback, the update of the bracket and the swap
  that keeps \<open>b\<close> the better approximation.
\<close>

definition brent_step :: "(real \<Rightarrow> real) \<Rightarrow> brent_state \<Rightarrow> solver_error + brent_state" where
  "brent_step f st =
     (case st of (a, b, c, fa, fb, fc) \<Rightarrow>
        (case (if fa \<noteq> fc \<and> fb \<noteq> fc then inverse_quadratic_step a b c fa fb fc
               else secant_step a b fa fb) of
           Inl e \<Rightarrow> Inl e
         | Inr s0 \<Rightarrow>
             let cond = (if a < b then s0 < (3 * a + b) / 4 \<or> s0 > b
                         else s0 > (3 * a + b) / 4 \<or> s0 < b);
                 s = (if cond \<or> \<bar>s0 - b\<bar> \<ge> \<bar>b - c\<bar> / 2 then (a + b) / 2 else s0);
                 fs = f s;
                 a1 = (if fa * fs < 0 then a else s);
                 fa1 = (if fa * fs < 0 then fa else fs);
                 b1 = (if fa * fs < 0 then s else b);
                 fb1 = (if fa * fs < 0 then fs else fb)
             in if \<bar>fa1\<bar> < \<bar>fb1\<bar> then Inr (b1, a1, b, fb1, fa1, fb)
                else Inr (a1, b1, b, fa1, fb1, fb)))"

text \<open>The loop of \<open>solve_for_root_brent\<close>, with the number of iterations that remain.\<close>

fun brent_loop :: "(real \<Rightarrow> real) \<Rightarrow> real \<Rightarrow> nat \<Rightarrow> brent_state \<Rightarrow> solver_error + real" where
  "brent_loop f tol 0 (a, b, c, fa, fb, fc) = Inr b"
| "brent_loop f tol (Suc n) (a, b, c, fa, fb, fc) =
     (if \<bar>fb\<bar> < tol \<or> \<bar>b - a\<bar> < tol then Inr b
      else
        (case brent_step f (a, b, c, fa, fb, fc) of
           Inl e \<Rightarrow> Inl e
         | Inr st \<Rightarrow> brent_loop f tol n st))"

text \<open>\<open>solve_for_root_brent\<close>.\<close>

definition solve_for_root_brent ::
  "(real \<Rightarrow> real) \<Rightarrow> real \<Rightarrow> real \<Rightarrow> real \<Rightarrow> int \<Rightarrow> solver_error + real" where
  "solve_for_root_brent f a b tol max_iter =
     (let fa = f a; fb = f b in
      if fa * fb > 0 then Inl InvalidBracket
      else if \<bar>fa\<bar> < \<bar>fb\<bar> then brent_loop f tol (nat max_iter) (b, a, b, fb, fa, fb)
      else brent_loop f tol (nat max_iter) (a, b, a, fa, fb, fa))"

text \<open>The loop of \<open>solve_for_root_newton_raphson\<close>.\<close>

fun newton_loop ::
  "(real \<Rightarrow> real) \<Rightarrow> (real \<Rightarrow> real) \<Rightarrow> real \<Rightarrow> nat \<Rightarrow> real \<Rightarrow> solver_error + real" where
  "newton_loop f f_prime tol 0 x = Inr x"
| "newton_loop f f_prime tol (Suc n) x =
     (let fx = f x; fpx = f_prime x in
      if \<bar>fx\<bar> < tol then Inr x
      else if \<bar>fpx\<bar> < 1 / 10 ^ 7 then Inl DerivativeNearZero
      else
        (case py_div fx fpx of
           Inl e \<Rightarrow> Inl e
         | Inr q \<Rightarrow>
             let x_new = x - q in
             if \<bar>x_new - x\<bar> < tol then Inr x_new
             else newton_loop f f_prime tol n x_new))"

text \<open>\<open>solve_for_root_newton_raphson\<close>.\<close>

definition solve_for_root_newton_raphson ::
  "(real \<Rightarrow> real) \<Rightarrow> (real \<Rightarrow> real) \<Rightarrow> real \<Rightarrow> real \<Rightarrow> int \<Rightarrow> solver_error + real" where
  "solve_for_root_newton_raphson f f_prime x0 tol max_iter =
     newton_loop f f_prime tol (nat max_iter) x0"

text \<open>\<open>solve_for_root_with_defensive_newton_rhapson\<close>.\<close>

definition solve_for_root_with_defensive_newton_rhapson ::
  "(real \<Rightarrow> real) \<Rightarrow> (real \<Rightarrow> real) \<Rightarrow> real \<Rightarrow> real \<times> real \<Rightarrow> real \<Rightarrow> int \<Rightarrow> int
     \<Rightarrow> solver_error + real" where
  "solve_for_root_with_defensive_newton_rhapson f f_prime x0 bracket tol max_iter_nr max_iter_brent =
     (case solve_for_root_newton_raphson f f_prime x0 tol max_iter_nr of
        Inr x \<Rightarrow> Inr x
      | Inl e \<Rightarrow> solve_for_root_brent f (fst bracket) (snd bracket) tol max_iter_brent)"

text \<open>A function with a root at the lower end of the bracket \<open>[0, 1]\<close>.\<close>

definition identity_fn :: "real \<Rightarrow> real" where
  "identity_fn x = x"

text \<open>A function with a sign change on \<open>[0, 3]\<close>, with its root at \<open>1\<close>.\<close>

definition shifted_fn :: "real \<Rightarrow> real" where
  "shifted_fn x = x - 1"

section \<open>Notions for the iteration of Brent's method\<close>

text \<open>
  The variables of \<open>solve_for_root_brent\<close> when the loop is entered: after the test of the
  bracket, the swap that makes \<open>b\<close> the end with the smaller \<open>|f|\<close>, and \<open>c = a\<close>.
\<close>

definition brent_start :: "(real \<Rightarrow> real) \<Rightarrow> real \<Rightarrow> real \<Rightarrow> brent_state" where
  "brent_start f a b =
     (if \<bar>f a\<bar> < \<bar>f b\<bar> then (b, a, b, f b, f a, f b) else (a, b, a, f a, f b, f a))"

text \<open>
  The variables after \<open>k\<close> passes through the body of the loop, the convergence test at the
  head of a pass, and the current approximation, which is the variable \<open>b\<close>.
\<close>

fun brent_passes :: "(real \<Rightarrow> real) \<Rightarrow> nat \<Rightarrow> brent_state \<Rightarrow> solver_error + brent_state" where
  "brent_passes f 0 st = Inr st"
| "brent_passes f (Suc k) st =
     (case brent_step f st of
        Inl e \<Rightarrow> Inl e
      | Inr st' \<Rightarrow> brent_passes f k st')"

definition brent_converged :: "real \<Rightarrow> brent_state \<Rightarrow> bool" where
  "brent_converged tol st = (case st of (a, b, c, fa, fb, fc) \<Rightarrow> \<bar>fb\<bar> < tol \<or> \<bar>b - a\<bar> < tol)"

definition current_approximation :: "brent_state \<Rightarrow> real" where
  "current_approximation st = (case st of (a, b, c, fa, fb, fc) \<Rightarrow> b)"


section \<open>Strip manager\<close>

text \<open>
  An axis-aligned box \<open>(minx, miny, maxx, maxy)\<close>, as built by the geometry library's
  \<open>box\<close> and returned by \<open>bounds\<close>.
\<close>

type_synonym box = "real \<times> real \<times> real \<times> real"

text \<open>
  What the strip manager obtains from the geometry library for a region and its obstacles:
  the bounds of the region, the exterior coordinates of every obstacle part, the result of
  \<open>compute_strip_perimeter\<close> on a box for an axis, the result of
  \<open>calculate_total_obstacle_perimeter\<close>, and, for the case analysis of the divider, the
  edges of the obstacle portions inside a box (one list of edges per clipped obstacle).
\<close>

record strip_geometry =
  region_bounds :: box
  obstacle_coords :: "(real \<times> real) list list"
  strip_perimeter :: "axis \<Rightarrow> box \<Rightarrow> real"
  total_obstacle_perimeter :: real
  obstacle_portions :: "box \<Rightarrow> ((real \<times> real) \<times> (real \<times> real)) list list"

text \<open>The fields of a \<open>Strip\<close> object.\<close>

record strip_manager =
  geom :: strip_geometry
  axis :: axis
  events :: "real list"
  strips :: "(real \<times> real \<times> box) list"
  per_strip_perimeters :: "((real \<times> real) \<times> real) list"
  cumulative_perimeters :: "(real \<times> real) list"

text \<open>\<open>Strip.define_events\<close>: the sorted list of the distinct event coordinates.\<close>

definition define_events :: "strip_geometry \<Rightarrow> axis \<Rightarrow> real list" where
  "define_events sg ax =
     (case region_bounds sg of (minx, miny, maxx, maxy) \<Rightarrow>
        (case ax of
           X \<Rightarrow> sort (remdups ([minx, maxx] @ map fst (concat (obstacle_coords sg))))
         | Y \<Rightarrow> sort (remdups ([miny, maxy] @ map snd (concat (obstacle_coords sg))))))"

text \<open>\<open>Strip.create_strips\<close>: one strip between each pair of consecutive events.\<close>

definition create_strips :: "strip_geometry \<Rightarrow> axis \<Rightarrow> real list \<Rightarrow> (real \<times> real \<times> box) list" where
  "create_strips sg ax evs =
     (case region_bounds sg of (minx, miny, maxx, maxy) \<Rightarrow>
        map (\<lambda>(c_prev, c_curr).
               (c_prev, c_curr,
                (case ax of X \<Rightarrow> (c_prev, miny, c_curr, maxy) | Y \<Rightarrow> (minx, c_prev, maxx, c_curr))))
            (zip evs (tl evs)))"

text \<open>
  The loop of \<open>Strip.compute_perimeters\<close>: the per-strip entries and the cumulative entries,
  in the order in which the dictionaries are filled.
\<close>

fun compute_perimeters ::
  "strip_geometry \<Rightarrow> axis \<Rightarrow> real \<Rightarrow> (real \<times> real \<times> box) list
     \<Rightarrow> ((real \<times> real) \<times> real) list \<times> (real \<times> real) list" where
  "compute_perimeters sg ax accumulated_perimeter [] = ([], [])"
| "compute_perimeters sg ax accumulated_perimeter ((coord_prev, coord_curr, strip) # rest) =
     (let perimeter = strip_perimeter sg ax strip;
          accumulated = accumulated_perimeter + perimeter;
          r = compute_perimeters sg ax accumulated rest
      in (((coord_prev, coord_curr), perimeter) # fst r, (coord_curr, accumulated) # snd r))"

text \<open>\<open>Strip.__init__\<close>.\<close>

definition Strip :: "strip_geometry \<Rightarrow> axis \<Rightarrow> strip_manager" where
  "Strip sg ax =
     (let evs = define_events sg ax;
          sts = create_strips sg ax evs;
          ps = compute_perimeters sg ax 0 sts
      in \<lparr> geom = sg, axis = ax, events = evs, strips = sts,
           per_strip_perimeters = fst ps, cumulative_perimeters = snd ps \<rparr>)"

text \<open>\<open>Strip._create_partial_strip\<close>.\<close>

definition create_partial_strip :: "strip_manager \<Rightarrow> real \<Rightarrow> real \<Rightarrow> box" where
  "create_partial_strip sm coord_start coord_end =
     (case region_bounds (geom sm) of (minx, miny, maxx, maxy) \<Rightarrow>
        (case axis sm of
           X \<Rightarrow> (coord_start, miny, coord_end, maxy)
         | Y \<Rightarrow> (minx, coord_start, maxx, coord_end)))"

text \<open>
  The search for the last event not above the coordinate, over the sorted keys of the
  cumulative dictionary, in \<open>Strip.query_accumulated_perimeter\<close>.
\<close>

fun find_last_event :: "real \<Rightarrow> real list \<Rightarrow> real option \<Rightarrow> real option" where
  "find_last_event coord [] last_event = last_event"
| "find_last_event coord (event # rest) last_event =
     (if coord < event then last_event else find_last_event coord rest (Some event))"

text \<open>
  The search for the strip that starts at the last event and ends above the coordinate, in
  \<open>Strip.query_accumulated_perimeter\<close>.
\<close>

fun add_partial_strip ::
  "strip_manager \<Rightarrow> real \<Rightarrow> real \<Rightarrow> real \<Rightarrow> (real \<times> real \<times> box) list \<Rightarrow> real" where
  "add_partial_strip sm last_event coord cumulative [] = cumulative"
| "add_partial_strip sm last_event coord cumulative ((coord_prev, coord_curr, strip) # rest) =
     (if last_event = coord_prev \<and> coord < coord_curr then
        cumulative + strip_perimeter (geom sm) (axis sm) (create_partial_strip sm coord_prev coord)
      else add_partial_strip sm last_event coord cumulative rest)"

text \<open>\<open>Strip.query_accumulated_perimeter\<close>.\<close>

definition query_accumulated_perimeter :: "strip_manager \<Rightarrow> real \<Rightarrow> real" where
  "query_accumulated_perimeter sm coord =
     (case map_of (cumulative_perimeters sm) coord of
        Some p \<Rightarrow> p
      | None \<Rightarrow>
          (case find_last_event coord (sort (map fst (cumulative_perimeters sm))) None of
             None \<Rightarrow> 0
           | Some last_event \<Rightarrow>
               add_partial_strip sm last_event coord
                 (case map_of (cumulative_perimeters sm) last_event of None \<Rightarrow> 0 | Some p \<Rightarrow> p)
                 (strips sm)))"

text \<open>\<open>Strip.calculate_total_obstacle_perimeter\<close>, computed by the geometry library.\<close>

definition calculate_total_obstacle_perimeter :: "strip_manager \<Rightarrow> real" where
  "calculate_total_obstacle_perimeter sm = total_obstacle_perimeter (geom sm)"

text \<open>\<open>Strip.calculate_region_diagonal\<close>.\<close>

definition calculate_region_diagonal :: "strip_manager \<Rightarrow> real" where
  "calculate_region_diagonal sm =
     (case region_bounds (geom sm) of (minx, miny, maxx, maxy) \<Rightarrow>
        sqrt ((maxx - minx) ^ 2 + (maxy - miny) ^ 2))"

text \<open>\<open>Strip.calculate_diagonal_at_coordinate\<close>.\<close>

definition calculate_diagonal_at_coordinate :: "strip_manager \<Rightarrow> real \<Rightarrow> real" where
  "calculate_diagonal_at_coordinate sm coord =
     (case region_bounds (geom sm) of (minx, miny, maxx, maxy) \<Rightarrow>
        let width = maxx - minx; height = maxy - miny in
        (case axis sm of
           X \<Rightarrow> sqrt (height ^ 2 + (coord - minx) ^ 2)
         | Y \<Rightarrow> sqrt (width ^ 2 + (coord - miny) ^ 2)))"

text \<open>\<open>Strip.calculate_diagonal_right\<close>.\<close>

definition calculate_diagonal_right :: "strip_manager \<Rightarrow> real \<Rightarrow> real" where
  "calculate_diagonal_right sm division_point =
     (case region_bounds (geom sm) of (minx, miny, maxx, maxy) \<Rightarrow>
        let width = maxx - minx; height = maxy - miny in
        (case axis sm of
           X \<Rightarrow> sqrt (height ^ 2 + (maxx - division_point) ^ 2)
         | Y \<Rightarrow> sqrt (width ^ 2 + (maxy - division_point) ^ 2)))"

text \<open>\<open>Strip.calculate_wcrt_left\<close>.\<close>

definition calculate_wcrt_left :: "strip_manager \<Rightarrow> real \<Rightarrow> real" where
  "calculate_wcrt_left sm division_point =
     (let diag_left = calculate_diagonal_at_coordinate sm division_point;
          perim_left = query_accumulated_perimeter sm division_point
      in diag_left + (1 / 2) * perim_left)"

text \<open>\<open>Strip.calculate_wcrt_right\<close>.\<close>

definition calculate_wcrt_right :: "strip_manager \<Rightarrow> real \<Rightarrow> real" where
  "calculate_wcrt_right sm division_point =
     (case region_bounds (geom sm) of (minx, miny, maxx, maxy) \<Rightarrow>
        let width = maxx - minx; height = maxy - miny;
            diag_right = (case axis sm of
                            X \<Rightarrow> sqrt (height ^ 2 + (maxx - division_point) ^ 2)
                          | Y \<Rightarrow> sqrt (width ^ 2 + (maxy - division_point) ^ 2));
            P_total = calculate_total_obstacle_perimeter sm;
            P_left = query_accumulated_perimeter sm division_point;
            P_right = P_total - P_left
        in diag_right + (1 / 2) * P_right)"

section \<open>Obstacle-aware divider\<close>

text \<open>
  An \<open>ObstacleAwareDivider\<close> is its strip manager and the name of its numerical method;
  \<open>P_R\<close> is the total obstacle perimeter taken from the strip manager by the constructor.
\<close>

definition P_R :: "strip_manager \<Rightarrow> real" where
  "P_R sm = calculate_total_obstacle_perimeter sm"

text \<open>\<open>ObstacleAwareDivider.g\<close> and \<open>ObstacleAwareDivider.g_prime\<close>.\<close>

definition g :: "strip_manager \<Rightarrow> real \<Rightarrow> real" where
  "g sm cut_coord = calculate_wcrt_left sm cut_coord - calculate_wcrt_right sm cut_coord"

definition g_prime :: "strip_manager \<Rightarrow> real \<Rightarrow> real" where
  "g_prime sm cut_coord =
     (let h = 1 / 10 ^ 6 in (g sm (cut_coord + h) - g sm (cut_coord - h)) / (2 * h))"

text \<open>
  The loop of \<open>ObstacleAwareDivider.find_strip_of_interest\<close>.  The smallest difference seen
  so far starts at infinity, which is \<open>None\<close> here.
\<close>

fun find_strip_loop ::
  "strip_manager \<Rightarrow> (real \<times> real \<times> box) option \<Rightarrow> real option \<Rightarrow> (real \<times> real \<times> box) list
     \<Rightarrow> (real \<times> real \<times> box) option" where
  "find_strip_loop sm best_strip min_wcrt_diff [] = best_strip"
| "find_strip_loop sm best_strip min_wcrt_diff ((coord_prev, coord_curr, strip_geometry) # rest) =
     (let d_left_j = calculate_diagonal_at_coordinate sm coord_curr;
          P_left_j = query_accumulated_perimeter sm coord_curr;
          WCRT_left_j = d_left_j + (1 / 2) * P_left_j;
          P_right_j = P_R sm - P_left_j;
          d_right_j = calculate_diagonal_right sm coord_curr;
          WCRT_right_j = d_right_j + (1 / 2) * P_right_j;
          wcrt_diff = \<bar>WCRT_left_j - WCRT_right_j\<bar>;
          improved = (case min_wcrt_diff of None \<Rightarrow> True | Some m \<Rightarrow> wcrt_diff < m)
      in if WCRT_left_j > WCRT_right_j then Some (coord_prev, coord_curr, strip_geometry)
         else find_strip_loop sm
                (if improved then Some (coord_prev, coord_curr, strip_geometry) else best_strip)
                (if improved then Some wcrt_diff else min_wcrt_diff)
                rest)"

text \<open>\<open>ObstacleAwareDivider.find_strip_of_interest\<close>.\<close>

definition find_strip_of_interest :: "strip_manager \<Rightarrow> (real \<times> real \<times> box) option" where
  "find_strip_of_interest sm = find_strip_loop sm None None (strips sm)"

text \<open>
  The case of a strip in \<open>ObstacleAwareDivider.determine_case_for_strip\<close>: no obstacle
  perimeter, obstacles without degeneracy, or an obstacle edge on the upper boundary of the
  strip (the source's return values 1, 2 and 3).
\<close>

datatype strip_case = Case1 | Case2 | Case3

text \<open>The degeneracy test on one edge in \<open>determine_case_for_strip\<close>.\<close>

definition edge_on_boundary :: "axis \<Rightarrow> real \<Rightarrow> (real \<times> real) \<times> (real \<times> real) \<Rightarrow> bool" where
  "edge_on_boundary ax coord_curr edge =
     (case edge of ((x1, y1), (x2, y2)) \<Rightarrow>
        (case ax of
           X \<Rightarrow> \<bar>x1 - x2\<bar> < 1 / 10 ^ 9 \<and> \<bar>x1 - coord_curr\<bar> < 1 / 10 ^ 9
         | Y \<Rightarrow> \<bar>y1 - y2\<bar> < 1 / 10 ^ 9 \<and> \<bar>y1 - coord_curr\<bar> < 1 / 10 ^ 9))"

text \<open>\<open>ObstacleAwareDivider.determine_case_for_strip\<close>.\<close>

definition determine_case_for_strip :: "strip_manager \<Rightarrow> real \<times> real \<times> box \<Rightarrow> strip_case" where
  "determine_case_for_strip sm strip =
     (case strip of (coord_prev, coord_curr, strip_geometry) \<Rightarrow>
        let portions = obstacle_portions (geom sm) strip_geometry in
        if portions = [] then Case1
        else if strip_perimeter (geom sm) (axis sm) strip_geometry < 1 / 10 ^ 9 then Case1
        else if list_ex (edge_on_boundary (axis sm) coord_curr) (concat portions) then Case3
        else Case2)"

text \<open>
  \<open>ObstacleAwareDivider.apply_numerical_method\<close>, with the default tolerances and iteration
  limits of the solvers.
\<close>

definition apply_numerical_method :: "strip_manager \<Rightarrow> string \<Rightarrow> real \<Rightarrow> real \<Rightarrow> solver_error + real" where
  "apply_numerical_method sm method a b =
     (if method = ''brent'' then solve_for_root_brent (g sm) a b (1 / 10 ^ 7) 100
      else
        let x0 = (1 / 2) * (a + b) in
        solve_for_root_with_defensive_newton_rhapson (g sm) (g_prime sm) x0 (a, b)
          (1 / 10 ^ 7) 100 100)"

text \<open>\<open>ObstacleAwareDivider.handle_case_1\<close>, \<open>handle_case_2\<close> and \<open>handle_case_3\<close>.\<close>

definition handle_case_1 ::
  "strip_manager \<Rightarrow> string \<Rightarrow> real \<Rightarrow> real \<Rightarrow> real \<Rightarrow> real \<Rightarrow> solver_error + real" where
  "handle_case_1 sm method c_j_minus_1 c_j g_j_minus_1 g_j =
     (if g_j_minus_1 * g_j < 0 then apply_numerical_method sm method c_j_minus_1 c_j
      else Inr c_j)"

definition handle_case_2 ::
  "strip_manager \<Rightarrow> string \<Rightarrow> real \<Rightarrow> real \<Rightarrow> real \<Rightarrow> real \<Rightarrow> solver_error + real" where
  "handle_case_2 sm method c_j_minus_1 c_j g_j_minus_1 g_j =
     (if g_j_minus_1 * g_j < 0 then apply_numerical_method sm method c_j_minus_1 c_j
      else Inr c_j)"

definition handle_case_3 ::
  "strip_manager \<Rightarrow> string \<Rightarrow> real \<Rightarrow> real \<Rightarrow> real \<Rightarrow> real \<Rightarrow> solver_error + real" where
  "handle_case_3 sm method c_j_minus_1 c_j g_j_minus_1 g_j =
     (let delta = 1 / 10 ^ 6;
          c_j_minus_delta = c_j - delta;
          g_j_minus_delta = g sm c_j_minus_delta
      in if g_j_minus_delta \<le> 0 then Inr c_j
         else if g_j_minus_1 * g_j_minus_delta < 0 then
           apply_numerical_method sm method c_j_minus_1 c_j_minus_delta
         else Inr c_j)"

text \<open>\<open>ObstacleAwareDivider.find_optimal_division_point\<close>.\<close>

definition find_optimal_division_point :: "strip_manager \<Rightarrow> string \<Rightarrow> solver_error + real" where
  "find_optimal_division_point sm method =
     (case find_strip_of_interest sm of
        None \<Rightarrow> Inl NoStripOfInterest
      | Some (coord_j_minus_1, coord_j, strip_geometry) \<Rightarrow>
          let g_j = g sm coord_j;
              g_j_minus_1 = g sm coord_j_minus_1
          in (case determine_case_for_strip sm (coord_j_minus_1, coord_j, strip_geometry) of
                Case1 \<Rightarrow> handle_case_1 sm method coord_j_minus_1 coord_j g_j_minus_1 g_j
              | Case2 \<Rightarrow> handle_case_2 sm method coord_j_minus_1 coord_j g_j_minus_1 g_j
              | Case3 \<Rightarrow> handle_case_3 sm method coord_j_minus_1 coord_j g_j_minus_1 g_j))"

section \<open>Notions for the strip of interest\<close>

text \<open>
  The left and right WCRT that \<open>find_strip_of_interest\<close> compares at the upper boundary
  \<open>c\<close> of a strip, the strips at which the left one exceeds the right one, and the absolute
  difference of the two.
\<close>

definition wcrt_left_at :: "strip_manager \<Rightarrow> real \<Rightarrow> real" where
  "wcrt_left_at sm c =
     calculate_diagonal_at_coordinate sm c + (1 / 2) * query_accumulated_perimeter sm c"

definition wcrt_right_at :: "strip_manager \<Rightarrow> real \<Rightarrow> real" where
  "wcrt_right_at sm c =
     calculate_diagonal_right sm c + (1 / 2) * (P_R sm - query_accumulated_perimeter sm c)"

definition crossing :: "strip_manager \<Rightarrow> real \<times> real \<times> box \<Rightarrow> bool" where
  "crossing sm strip = (wcrt_left_at sm (fst (snd strip)) > wcrt_right_at sm (fst (snd strip)))"

definition wcrt_gap :: "strip_manager \<Rightarrow> real \<times> real \<times> box \<Rightarrow> real" where
  "wcrt_gap sm strip = \<bar>wcrt_left_at sm (fst (snd strip)) - wcrt_right_at sm (fst (snd strip))\<bar>"

text \<open>The first element of a list at which a function takes its least value.\<close>

fun first_minimum :: "('a \<Rightarrow> real) \<Rightarrow> 'a list \<Rightarrow> 'a option" where
  "first_minimum f [] = None"
| "first_minimum f (x # xs) =
     (case first_minimum f xs of
        None \<Rightarrow> Some x
      | Some y \<Rightarrow> if f x \<le> f y then Some x else Some y)"

section \<open>Example strip geometries\<close>

text \<open>
  A rectangular region with rectangular obstacles strictly inside it.  For these the
  perimeter that \<open>compute_strip_perimeter\<close> finds in a box is computed exactly: of each
  obstacle, the parts of the two edges along the axis that lie in the box, and each edge
  across the axis that lies in the box but not on its lower boundary.
\<close>

definition rect_ring :: "box \<Rightarrow> (real \<times> real) list" where
  "rect_ring ob =
     (case ob of (x0, y0, x1, y1) \<Rightarrow> [(x0, y0), (x1, y0), (x1, y1), (x0, y1), (x0, y0)])"

definition rect_perimeter_in_box :: "axis \<Rightarrow> box \<Rightarrow> box \<Rightarrow> real" where
  "rect_perimeter_in_box ax strip ob =
     (case strip of (sx0, sy0, sx1, sy1) \<Rightarrow>
      case ob of (ox0, oy0, ox1, oy1) \<Rightarrow>
        (case ax of
           X \<Rightarrow> 2 * max 0 (min sx1 ox1 - max sx0 ox0)
                 + (if sx0 < ox0 \<and> ox0 \<le> sx1 then oy1 - oy0 else 0)
                 + (if sx0 < ox1 \<and> ox1 \<le> sx1 then oy1 - oy0 else 0)
         | Y \<Rightarrow> 2 * max 0 (min sy1 oy1 - max sy0 oy0)
                 + (if sy0 < oy0 \<and> oy0 \<le> sy1 then ox1 - ox0 else 0)
                 + (if sy0 < oy1 \<and> oy1 \<le> sy1 then ox1 - ox0 else 0)))"

definition rect_portion :: "box \<Rightarrow> box \<Rightarrow> ((real \<times> real) \<times> (real \<times> real)) list" where
  "rect_portion strip ob =
     (case strip of (sx0, sy0, sx1, sy1) \<Rightarrow>
      case ob of (ox0, oy0, ox1, oy1) \<Rightarrow>
        let x0 = max sx0 ox0; x1 = min sx1 ox1; y0 = max sy0 oy0; y1 = min sy1 oy1 in
        if x1 < x0 \<or> y1 < y0 then []
        else if x0 = x1 \<and> y0 = y1 then []
        else if x0 = x1 \<or> y0 = y1 then [((x0, y0), (x1, y1))]
        else [((x0, y0), (x1, y0)), ((x1, y0), (x1, y1)), ((x1, y1), (x0, y1)), ((x0, y1), (x0, y0))])"

definition rect_strip_geometry :: "box \<Rightarrow> box list \<Rightarrow> strip_geometry" where
  "rect_strip_geometry region obstacles =
     \<lparr> region_bounds = region,
       obstacle_coords = map rect_ring obstacles,
       strip_perimeter = (\<lambda>ax strip. sum_list (map (rect_perimeter_in_box ax strip) obstacles)),
       total_obstacle_perimeter =
         sum_list (map (\<lambda>ob. case ob of (x0, y0, x1, y1) \<Rightarrow> 2 * ((x1 - x0) + (y1 - y0))) obstacles),
       obstacle_portions =
         (\<lambda>strip. filter (\<lambda>es. es \<noteq> []) (map (rect_portion strip) obstacles)) \<rparr>"

text \<open>
  A \<open>100 \<times> 100\<close> region with two \<open>20 \<times> 10\<close> obstacles, one left and one right of \<open>x = 50\<close>.
\<close>

definition two_obstacles :: strip_geometry where
  "two_obstacles = rect_strip_geometry (0, 0, 100, 100) [(30, 10, 50, 20), (60, 30, 80, 40)]"

text \<open>A \<open>100 \<times> 100\<close> region with one centred \<open>20 \<times> 20\<close> obstacle.\<close>

definition centred_obstacle :: strip_geometry where
  "centred_obstacle = rect_strip_geometry (0, 0, 100, 100) [(40, 40, 60, 60)]"

section \<open>Notions for the accumulated perimeter\<close>





text \<open>
  The accumulated perimeter at a coordinate, read off the strips from left to right: the
  perimeters of the strips that end at or below the coordinate, plus the perimeter of the
  partial strip up to the coordinate when it lies inside a strip other than the first one
  (the lower bound of the first strip is not a key of the cumulative dictionary, so
  \<open>query_accumulated_perimeter\<close> finds no last event for a coordinate in the first strip).
\<close>

fun accumulated ::
  "strip_manager \<Rightarrow> bool \<Rightarrow> real \<Rightarrow> (real \<times> real \<times> box) list \<Rightarrow> real \<Rightarrow> real" where
  "accumulated sm first acc [] c = acc"
| "accumulated sm first acc ((cp, cc, b) # rest) c =
     (if c < cc then
        (if first \<or> c \<le> cp then acc
         else acc + strip_perimeter (geom sm) (axis sm) (create_partial_strip sm cp c))
      else accumulated sm False (acc + strip_perimeter (geom sm) (axis sm) b) rest c)"



section \<open>Properties of the decomposition driver\<close>

subsection \<open>Unfolding the recursion\<close>

text \<open>
  The axis selector is a function of the region and the obstacles, so the second selection
  in the fallback branch of \<open>_decompose\<close> returns the axis of the first one and the branch
  ends without a second attempt: \<open>_decompose\<close> returns what its first attempt returns.
\<close>

lemma decompose_unfold:
  "decompose G cfg region obstacles depth st =
    (if geom_is_empty G region then (False, st)
     else if coverage_stop G region obstacles then
       (True, store_partition region obstacles (is_subregion_valid G cfg region obstacles) st)
     else if depth \<ge> max_depth cfg then
       (is_subregion_valid G cfg region obstacles,
        store_partition region obstacles (is_subregion_valid G cfg region obstacles) st)
     else if \<not> is_subregion_valid G cfg region obstacles then (False, st)
     else
       (case select_best_axis G (numerical_method cfg) (1 / 100) region obstacles of
          None \<Rightarrow> (False, st)
        | Some (best_axis, overall, best_div_pt, subL, subR) \<Rightarrow>
            attempt_partition G cfg region obstacles best_axis depth best_div_pt subL subR st))"
proof (cases "select_best_axis G (numerical_method cfg) (1 / 100) region obstacles")
  case None
  then show ?thesis by (subst decompose.simps) simp
next
  case (Some t)
  obtain best_axis overall best_div_pt subL subR
    where t: "t = (best_axis, overall, best_div_pt, subL, subR)"
    by (cases t) auto
  obtain b st1 where r:
    "attempt_partition G cfg region obstacles best_axis depth best_div_pt subL subR st = (b, st1)"
    by (cases "attempt_partition G cfg region obstacles best_axis depth best_div_pt subL subR st") auto
  show ?thesis
    by (subst decompose.simps) (cases b; simp add: Some t r)
qed

lemma attempt_partition_unfold:
  "attempt_partition G cfg region obstacles ax depth dp subL subR st =
    (if degenerate_cut G region ax dp then (False, st\<lparr>axis_stack := butlast (axis_stack st @ [ax])\<rparr>)
     else if \<not> is_subregion_valid G cfg (fst subL) (snd subL)
             \<and> \<not> is_subregion_valid G cfg (fst subR) (snd subR)
     then (False, pop_axis (push_axis ax st))
     else
       (let r1 = (if is_subregion_valid G cfg (fst subL) (snd subL)
                  then decompose G cfg (fst subL) (snd subL) (depth + 1) (push_axis ax st)
                  else (False, push_axis ax st));
            r2 = (if is_subregion_valid G cfg (fst subR) (snd subR)
                  then decompose G cfg (fst subR) (snd subR) (depth + 1) (snd r1)
                  else (False, snd r1))
        in (fst r1 \<or> fst r2, pop_axis (snd r2))))"
  by (subst attempt_partition.simps)
     (simp add: Let_def case_prod_beta pop_axis_def push_axis_def)

text \<open>
  Induction along the recursion: a call of \<open>_decompose\<close> below the maximal depth relies on
  \<open>_attempt_partition\<close> at the same depth, which relies on \<open>_decompose\<close> one level deeper.
\<close>

lemma decompose_depth_induct:
  assumes D: "\<And>region obstacles depth st.
      (\<And>r obs ax dp sl sr st'. depth < max_depth cfg \<Longrightarrow> Q r obs ax depth dp sl sr st')
        \<Longrightarrow> P region obstacles depth st"
    and A: "\<And>region obstacles ax depth dp subL subR st.
      (\<And>r obs st'. P r obs (depth + 1) st') \<Longrightarrow> Q region obstacles ax depth dp subL subR st"
  shows "P region obstacles depth st" and "Q region obstacles ax depth dp subL subR st"
proof -
  have P_all: "P r obs d s" for r obs d s
  proof (induction "nat (max_depth cfg - d)" arbitrary: d r obs s rule: less_induct)
    case less
    show ?case
    proof (rule D)
      fix r' obs' ax' dp' sl sr st'
      assume lt: "d < max_depth cfg"
      show "Q r' obs' ax' d dp' sl sr st'"
      proof (rule A)
        fix r'' obs'' st''
        from lt have "nat (max_depth cfg - (d + 1)) < nat (max_depth cfg - d)" by simp
        then show "P r'' obs'' (d + 1) st''" by (rule less)
      qed
    qed
  qed
  show "P region obstacles depth st" by (rule P_all)
  show "Q region obstacles ax depth dp subL subR st" by (rule A) (rule P_all)
qed

subsection \<open>The axis stack and the partition list\<close>

lemma axis_stack_store [simp]: "axis_stack (store_partition r obs ok st) = axis_stack st"
  by (simp add: store_partition_def)

lemma axis_stack_pop [simp]: "axis_stack (pop_axis st) = butlast (axis_stack st)"
  by (simp add: pop_axis_def)

lemma axis_stack_push [simp]: "axis_stack (push_axis ax st) = axis_stack st @ [ax]"
  by (simp add: push_axis_def)

lemma partitions_pop [simp]: "partitions (pop_axis st) = partitions st"
  by (simp add: pop_axis_def)

lemma partitions_push [simp]: "partitions (push_axis ax st) = partitions st"
  by (simp add: push_axis_def)

lemma stack_frame:
  "axis_stack (snd (decompose G cfg region obstacles depth st)) = axis_stack st"
  "axis_stack (snd (attempt_partition G cfg region obstacles ax depth dp subL subR st)) = axis_stack st"
proof (induction region obstacles depth st and region obstacles ax depth dp subL subR st
    rule: decompose_depth_induct [where cfg = cfg])
  case (1 region obstacles depth st)
  show ?case
    by (subst decompose_unfold) (simp add: 1 split: option.split)
next
  case (2 region obstacles ax depth dp subL subR st)
  show ?case
    by (subst attempt_partition_unfold) (simp add: 2 Let_def)
qed

lemma grows_refl: "grows bound stack False st st"
  by (simp add: grows_def)

lemma grows_store:
  "length (axis_stack st) \<le> bound \<Longrightarrow>
   grows bound (axis_stack st) produced st (store_partition region obstacles ok st)"
  by (simp add: grows_def store_partition_def axis_history_def)

lemma grows_trans:
  assumes "grows bound stack p1 st st1" and "grows bound stack p2 st1 st2"
  shows "grows bound stack (p1 \<or> p2) st st2"
proof -
  from assms(1) obtain n1 where n1: "partitions st1 = partitions st @ n1" "p1 \<longrightarrow> n1 \<noteq> []"
    "\<forall>p \<in> set n1. take (length stack) (axis_history p) = stack \<and> length (axis_history p) \<le> bound"
    unfolding grows_def by blast
  from assms(2) obtain n2 where n2: "partitions st2 = partitions st1 @ n2" "p2 \<longrightarrow> n2 \<noteq> []"
    "\<forall>p \<in> set n2. take (length stack) (axis_history p) = stack \<and> length (axis_history p) \<le> bound"
    unfolding grows_def by blast
  have "partitions st2 = partitions st @ (n1 @ n2)" using n1(1) n2(1) by simp
  moreover have "p1 \<or> p2 \<longrightarrow> n1 @ n2 \<noteq> []" using n1(2) n2(2) by simp
  moreover have "\<forall>p \<in> set (n1 @ n2). take (length stack) (axis_history p) = stack
      \<and> length (axis_history p) \<le> bound"
    using n1(3) n2(3) by auto
  ultimately show ?thesis unfolding grows_def by blast
qed

lemma grows_weaken:
  assumes "grows bound (stack @ [ax]) produced st st'" and "bound \<le> bound'"
  shows "grows bound' stack produced st st'"
proof -
  from assms(1) obtain new where new: "partitions st' = partitions st @ new" "produced \<longrightarrow> new \<noteq> []"
    "\<forall>p \<in> set new. take (length (stack @ [ax])) (axis_history p) = stack @ [ax]
        \<and> length (axis_history p) \<le> bound"
    unfolding grows_def by blast
  have "take (length stack) (axis_history p) = stack \<and> length (axis_history p) \<le> bound'"
    if "p \<in> set new" for p
  proof -
    from new(3) that have t: "take (length (stack @ [ax])) (axis_history p) = stack @ [ax]"
      and l: "length (axis_history p) \<le> bound" by auto
    have "take (length stack) (take (length (stack @ [ax])) (axis_history p)) = take (length stack) (stack @ [ax])"
      by (simp only: t)
    then have "take (length stack) (axis_history p) = stack" by (simp add: min_def)
    with l assms(2) show ?thesis by simp
  qed
  with new(1,2) show ?thesis unfolding grows_def by blast
qed

lemma grows_push_pop:
  "grows bound stack produced (push_axis ax st) st' \<Longrightarrow> grows bound stack produced st (pop_axis st')"
  by (simp add: grows_def)

lemma decompose_grows:
  "grows (length (axis_stack st) + nat (max_depth cfg - depth)) (axis_stack st)
     (fst (decompose G cfg region obstacles depth st)) st
     (snd (decompose G cfg region obstacles depth st))"
  "grows (length (axis_stack st) + 1 + nat (max_depth cfg - depth - 1)) (axis_stack st @ [ax])
     (fst (attempt_partition G cfg region obstacles ax depth dp subL subR st)) st
     (snd (attempt_partition G cfg region obstacles ax depth dp subL subR st))"
proof (induction region obstacles depth st and region obstacles ax depth dp subL subR st
    rule: decompose_depth_induct [where cfg = cfg])
  case (1 region obstacles depth st)
  let ?b = "length (axis_stack st) + nat (max_depth cfg - depth)"
  have att: "grows ?b (axis_stack st)
      (fst (attempt_partition G cfg region obstacles a depth dp sl sr st)) st
      (snd (attempt_partition G cfg region obstacles a depth dp sl sr st))"
    if "depth < max_depth cfg" for a dp sl sr
  proof (rule grows_weaken)
    show "grows (length (axis_stack st) + 1 + nat (max_depth cfg - depth - 1)) (axis_stack st @ [a])
      (fst (attempt_partition G cfg region obstacles a depth dp sl sr st)) st
      (snd (attempt_partition G cfg region obstacles a depth dp sl sr st))"
      by (rule 1) (rule that)
    show "length (axis_stack st) + 1 + nat (max_depth cfg - depth - 1) \<le> ?b"
      using that by simp
  qed
  show ?case
    by (subst (1 2) decompose_unfold)
       (simp add: grows_refl grows_store att split: option.split)
next
  case (2 region obstacles ax depth dp subL subR st)
  let ?b = "length (axis_stack st) + 1 + nat (max_depth cfg - depth - 1)"
  let ?s = "axis_stack st @ [ax]"
  let ?st1 = "push_axis ax st"
  define r1 where "r1 = (if is_subregion_valid G cfg (fst subL) (snd subL)
                  then decompose G cfg (fst subL) (snd subL) (depth + 1) ?st1
                  else (False, ?st1))"
  define r2 where "r2 = (if is_subregion_valid G cfg (fst subR) (snd subR)
                  then decompose G cfg (fst subR) (snd subR) (depth + 1) (snd r1)
                  else (False, snd r1))"
  have eqb: "max_depth cfg - (depth + 1) = max_depth cfg - depth - 1" by simp
  have g1: "grows ?b ?s (fst r1) ?st1 (snd r1)"
    using 2 [where r = "fst subL" and obs = "snd subL" and st' = ?st1]
    by (simp add: r1_def grows_refl eqb)
  have s1: "axis_stack (snd r1) = ?s"
    by (simp add: r1_def stack_frame)
  have g2: "grows ?b ?s (fst r2) (snd r1) (snd r2)"
    using 2 [where r = "fst subR" and obs = "snd subR" and st' = "snd r1"]
    by (simp add: r2_def grows_refl eqb s1)
  have g: "grows ?b ?s (fst r1 \<or> fst r2) st (pop_axis (snd r2))"
    by (rule grows_push_pop) (rule grows_trans [OF g1 g2])
  have g0: "grows ?b ?s False st (pop_axis (push_axis ax st))"
    by (rule grows_push_pop) (rule grows_refl)
  have g0': "grows ?b ?s False st (st\<lparr>axis_stack := butlast (axis_stack st @ [ax])\<rparr>)"
    by (simp add: grows_def)
  show ?case
    apply (subst (1 2) attempt_partition_unfold)
    using g g0 g0'
    apply (simp add: Let_def r1_def [symmetric] r2_def [symmetric])
    done
qed

subsection \<open>The driver on the example geometries\<close>

lemma valid_left: "is_subregion_valid rect_geometry example_config (0, 0, 50, 100) [] = True"
  by (simp add: is_subregion_valid_def rect_geometry_def example_config_def rect_area_def
      COVERAGE_RATIO_STOP_def)

lemma valid_right: "is_subregion_valid rect_geometry example_config (50, 0, 100, 100) [] = True"
  by (simp add: is_subregion_valid_def rect_geometry_def example_config_def rect_area_def
      COVERAGE_RATIO_STOP_def)

lemma valid_root: "is_subregion_valid rect_geometry example_config example_region [] = True"
  by (simp add: is_subregion_valid_def rect_geometry_def example_config_def rect_area_def
      COVERAGE_RATIO_STOP_def example_region_def)

lemma no_coverage_stop: "rect_area r > 1 / 10 ^ 12 \<Longrightarrow> coverage_stop rect_geometry r [] = False"
  by (simp add: coverage_stop_def rect_geometry_def COVERAGE_RATIO_STOP_def Let_def)

lemma eval_x: "evaluate_axis rect_geometry ''brent'' example_region [] X =
   Some \<lparr> NWCRT = 0, MSDU = 1 / (1 / 4 + 1 / 10 ^ 9), m_division_point = 50,
          m_subregion_left = ((0, 0, 50, 100), []), m_subregion_right = ((50, 0, 100, 100), []) \<rparr>"
  by (simp add: evaluate_axis_def rect_geometry_def example_region_def midpoint_split_def
      rect_diagonal_def square_measure_def calculate_squareness_metrics_def Let_def power2_eq_square)

lemma eval_y: "evaluate_axis rect_geometry ''brent'' example_region [] Y =
   Some \<lparr> NWCRT = 0, MSDU = 1 / (1 + 1 / 10 ^ 9), m_division_point = 50,
          m_subregion_left = ((0, 0, 100, 50), []), m_subregion_right = ((0, 50, 100, 100), []) \<rparr>"
  by (simp add: evaluate_axis_def rect_geometry_def example_region_def midpoint_split_def
      rect_diagonal_def square_measure_def calculate_squareness_metrics_def Let_def power2_eq_square)

lemma select_example:
  "select_best_axis rect_geometry ''brent'' (1 / 100) example_region [] =
     Some (X,
       (\<lparr> NWCRT = 0, MSDU = 1 / (1 / 4 + 1 / 10 ^ 9), m_division_point = 50,
          m_subregion_left = ((0, 0, 50, 100), []), m_subregion_right = ((50, 0, 100, 100), []) \<rparr>,
        \<lparr> NWCRT = 0, MSDU = 1 / (1 + 1 / 10 ^ 9), m_division_point = 50,
          m_subregion_left = ((0, 0, 100, 50), []), m_subregion_right = ((0, 50, 100, 100), []) \<rparr>),
       50, ((0, 0, 50, 100), []), ((50, 0, 100, 100), []))"
  by (simp add: select_best_axis_def eval_x eval_y choose_axis_def)

lemma leaf_left:
  "decompose rect_geometry example_config (0, 0, 50, 100) [] 1 st =
     (True, store_partition (0, 0, 50, 100) [] True st)"
  apply (subst decompose.simps)
  apply (simp add: valid_left no_coverage_stop rect_area_def)
  apply (simp add: rect_geometry_def example_config_def)
  done

lemma leaf_right:
  "decompose rect_geometry example_config (50, 0, 100, 100) [] 1 st =
     (True, store_partition (50, 0, 100, 100) [] True st)"
  apply (subst decompose.simps)
  apply (simp add: valid_right no_coverage_stop rect_area_def)
  apply (simp add: rect_geometry_def example_config_def)
  done

lemma attempt_example:
  "attempt_partition rect_geometry example_config example_region [] X 0 50
      ((0, 0, 50, 100), []) ((50, 0, 100, 100), []) initial_state =
   (True, \<lparr> partitions = [((0, 0, 50, 100), [], [X], True), ((50, 0, 100, 100), [], [X], True)],
            axis_stack = [] \<rparr>)"
  apply (subst attempt_partition.simps)
  apply (simp add: valid_left valid_right leaf_left leaf_right Let_def)
  apply (simp add: degenerate_cut_def rect_geometry_def example_region_def
      store_partition_def push_axis_def pop_axis_def initial_state_def)
  done

lemma decompose_example:
  "decompose rect_geometry example_config example_region [] 0 initial_state =
   (True, \<lparr> partitions = [((0, 0, 50, 100), [], [X], True), ((50, 0, 100, 100), [], [X], True)],
            axis_stack = [] \<rparr>)"
proof -
  have nm: "numerical_method example_config = ''brent''" by (simp add: example_config_def)
  have a: "rect_area example_region > 1 / 10 ^ 12" by (simp add: rect_area_def example_region_def)
  have e: "\<not> geom_is_empty rect_geometry example_region" by (simp add: rect_geometry_def)
  have d: "\<not> 0 \<ge> max_depth example_config" by (simp add: example_config_def)
  show ?thesis
    by (subst decompose_unfold)
       (simp add: nm e d valid_root no_coverage_stop [OF a] select_example attempt_example)
qed

lemma run_example:
  "run rect_geometry example_config example_region [] =
     [((0, 0, 50, 100), [], [X], True), ((50, 0, 100, 100), [], [X], True)]"
  by (simp add: run_def decompose_example)

lemma example_config_fields [simp]:
  "max_depth example_config = 1"
  "numerical_method example_config = ''brent''"
  "min_dimension_threshold example_config = 1 / 1000"
  "check_connectivity example_config = False"
  "allow_fallback_axis example_config = True"
  "mode example_config = ''track_back''"
  by (simp_all add: example_config_def)

subsection \<open>The fallback axis\<close>

lemma is_subregion_valid_fallback [simp]:
  "is_subregion_valid G (cfg\<lparr>allow_fallback_axis := b\<rparr>) region obstacles
     = is_subregion_valid G cfg region obstacles"
proof -
  have m: "min_dimension_threshold (cfg\<lparr>allow_fallback_axis := b\<rparr>) = min_dimension_threshold cfg"
    by simp
  have c: "check_connectivity (cfg\<lparr>allow_fallback_axis := b\<rparr>) = check_connectivity cfg"
    by simp
  show ?thesis
    unfolding is_subregion_valid_def m c by (rule refl)
qed

lemma fallback_irrelevant:
  "decompose G (cfg\<lparr>allow_fallback_axis := b\<rparr>) region obstacles depth st
     = decompose G cfg region obstacles depth st"
  "attempt_partition G (cfg\<lparr>allow_fallback_axis := b\<rparr>) region obstacles ax depth dp subL subR st
     = attempt_partition G cfg region obstacles ax depth dp subL subR st"
proof (induction region obstacles depth st and region obstacles ax depth dp subL subR st
    rule: decompose_depth_induct [where cfg = cfg])
  case (1 region obstacles depth st)
  show ?case
    by (subst (1 2) decompose_unfold) (simp add: 1 split: option.split)
next
  case (2 region obstacles ax depth dp subL subR st)
  show ?case
    by (subst (1 2) attempt_partition_unfold) (simp add: 2 Let_def)
qed

lemma run_fallback_irrelevant:
  "run G (cfg\<lparr>allow_fallback_axis := b\<rparr>) region obstacles = run G cfg region obstacles"
  by (simp add: run_def fallback_irrelevant)

subsection \<open>The top-level run\<close>

lemma decompose_initial_grows:
  "\<exists>new. partitions (snd (decompose G cfg region obstacles 0 initial_state)) = new
      \<and> (fst (decompose G cfg region obstacles 0 initial_state) \<longrightarrow> new \<noteq> [])
      \<and> (\<forall>p \<in> set new. length (axis_history p) \<le> nat (max_depth cfg))"
  using decompose_grows(1) [of initial_state cfg 0 G region obstacles]
  by (simp add: grows_def initial_state_def)

text \<open>
  Claim C1.  In track-back mode (the only supported mode), \<open>run\<close> returns a non-empty list
  of partitions for every region, obstacle list and configuration; when the top-level call of
  \<open>_decompose\<close> returns false, \<open>run\<close> appends the root region with its obstacles, an empty
  axis history and the valid flag set, as one further record.
\<close>

theorem run_nonempty:
  assumes "mode cfg = ''track_back''"
  shows "run G cfg region obstacles \<noteq> []
     \<and> (\<not> fst (decompose G cfg region obstacles 0 initial_state) \<longrightarrow>
          run G cfg region obstacles =
            partitions (snd (decompose G cfg region obstacles 0 initial_state))
              @ [(region, obstacles, [], True)])"
proof -
  obtain b st where r: "decompose G cfg region obstacles 0 initial_state = (b, st)"
    by (cases "decompose G cfg region obstacles 0 initial_state") auto
  have fr: "axis_stack st = []"
    using stack_frame(1) [of G cfg region obstacles 0 initial_state]
    by (simp only: r snd_conv) (simp add: initial_state_def)
  have ne: "b \<longrightarrow> partitions st \<noteq> []"
    using decompose_initial_grows [of G cfg region obstacles] by (simp add: r)
  show ?thesis
    using assms ne by (simp add: run_def r store_partition_def fr)
qed

lemma run_failing:
  "run failing_geometry example_config example_region [] = [(example_region, [], [], True)]"
proof -
  have d: "decompose failing_geometry example_config example_region [] 0 initial_state
      = (False, initial_state)"
    by (subst decompose_unfold)
       (simp add: select_best_axis_def evaluate_axis_def failing_geometry_def rect_geometry_def
          coverage_stop_def is_subregion_valid_def example_config_def example_region_def
          rect_area_def COVERAGE_RATIO_STOP_def Let_def)
  show ?thesis
    by (simp add: run_def d) (simp add: store_partition_def initial_state_def)
qed

lemma decompose_failing:
  "decompose failing_geometry example_config example_region [] 0 initial_state
      = (False, initial_state)"
  by (subst decompose_unfold)
       (simp add: select_best_axis_def evaluate_axis_def failing_geometry_def rect_geometry_def
          coverage_stop_def is_subregion_valid_def example_config_def example_region_def
          rect_area_def COVERAGE_RATIO_STOP_def Let_def)

theorem run_nonempty_witness:
  "mode example_config = ''track_back''
   \<and> \<not> fst (decompose failing_geometry example_config example_region [] 0 initial_state)
   \<and> run failing_geometry example_config example_region [] = [(example_region, [], [], True)]
   \<and> run failing_geometry example_config example_region [] \<noteq> []"
  using run_nonempty [of example_config failing_geometry example_region "[]"]
  by (simp add: decompose_failing run_failing)

text \<open>
  Claim C7.  With \<open>max_depth = d \<ge> 0\<close>, the axis history of every partition record
  returned by \<open>run\<close> has at most \<open>d\<close> entries.
\<close>

theorem depth_bound:
  assumes "0 \<le> max_depth cfg"
  shows "\<forall>p \<in> set (run G cfg region obstacles). length (axis_history p) \<le> nat (max_depth cfg)"
proof -
  obtain b st where r: "decompose G cfg region obstacles 0 initial_state = (b, st)"
    by (cases "decompose G cfg region obstacles 0 initial_state") auto
  have fr: "axis_stack st = []"
    using stack_frame(1) [of G cfg region obstacles 0 initial_state]
    by (simp only: r snd_conv) (simp add: initial_state_def)
  have bd: "\<forall>p \<in> set (partitions st). length (axis_history p) \<le> nat (max_depth cfg)"
    using decompose_initial_grows [of G cfg region obstacles] by (simp add: r)
  show ?thesis
    using bd by (simp add: run_def r store_partition_def fr axis_history_def)
qed

theorem depth_bound_witness:
  "0 \<le> max_depth example_config
   \<and> run rect_geometry example_config example_region [] =
       [((0, 0, 50, 100), [], [X], True), ((50, 0, 100, 100), [], [X], True)]
   \<and> map (\<lambda>p. length (axis_history p)) (run rect_geometry example_config example_region [])
       = [1, 1]
   \<and> nat (max_depth example_config) = 1"
  using depth_bound [of example_config rect_geometry example_region "[]"] run_example
  by (simp add: example_config_def axis_history_def)

text \<open>
  Claim C9.  With an otherwise identical configuration, the run with
  \<open>allow_fallback_axis = True\<close> yields at least as many records flagged valid as the run with
  \<open>allow_fallback_axis = False\<close>.
\<close>

theorem fallback_at_least_as_many_valid:
  "length (filter valid_flag (run G (cfg\<lparr>allow_fallback_axis := False\<rparr>) region obstacles))
     \<le> length (filter valid_flag (run G (cfg\<lparr>allow_fallback_axis := True\<rparr>) region obstacles))"
  by (simp add: run_fallback_irrelevant)

text \<open>
  Claim C10.  \<open>_attempt_partition\<close> and \<open>_decompose\<close> return with the axis stack they were
  called with; every record stored during \<open>_attempt_partition\<close> carries the pushed axis on top
  of the caller's stack; after the top-level recursion the stack is empty, and the root record
  stored by track-back has an empty axis history.
\<close>

theorem stack_balanced:
  "axis_stack (snd (attempt_partition G cfg region obstacles ax depth dp subL subR st)) = axis_stack st
   \<and> axis_stack (snd (decompose G cfg region obstacles depth st)) = axis_stack st
   \<and> (\<forall>p \<in> set (drop (length (partitions st))
                 (partitions (snd (attempt_partition G cfg region obstacles ax depth dp subL subR st)))).
         take (length (axis_stack st) + 1) (axis_history p) = axis_stack st @ [ax])
   \<and> axis_stack (snd (decompose G cfg region obstacles 0 initial_state)) = []
   \<and> (mode cfg = ''track_back'' \<and> \<not> fst (decompose G cfg region obstacles 0 initial_state) \<longrightarrow>
        last (run G cfg region obstacles) = (region, obstacles, [], True))"
proof -
  have a: "\<forall>p \<in> set (drop (length (partitions st))
                 (partitions (snd (attempt_partition G cfg region obstacles ax depth dp subL subR st)))).
         take (length (axis_stack st) + 1) (axis_history p) = axis_stack st @ [ax]"
    using decompose_grows(2) [of st cfg depth ax G region obstacles dp subL subR]
    by (auto simp: grows_def)
  obtain b st0 where r: "decompose G cfg region obstacles 0 initial_state = (b, st0)"
    by (cases "decompose G cfg region obstacles 0 initial_state") auto
  have fr: "axis_stack st0 = []"
    using stack_frame(1) [of G cfg region obstacles 0 initial_state]
    by (simp only: r snd_conv) (simp add: initial_state_def)
  have l: "mode cfg = ''track_back'' \<and> \<not> fst (decompose G cfg region obstacles 0 initial_state) \<longrightarrow>
        last (run G cfg region obstacles) = (region, obstacles, [], True)"
    by (simp add: run_def r store_partition_def fr)
  have e: "axis_stack (snd (decompose G cfg region obstacles 0 initial_state)) = []"
    by (simp add: r fr)
  show ?thesis
    using a l e by (simp only: stack_frame simp_thms)
qed

lemma rect_diagonal_boundary:
  "rect_diagonal (100, 0, 100, 100) = rect_diagonal (0, 100, 100, 100)"
  by (simp add: rect_diagonal_def)

lemma select_boundary:
  "\<exists>ov. select_best_axis boundary_geometry ''brent'' (1 / 100) example_region [] =
     Some (Y, ov, 100, (example_region, []), ((0, 100, 100, 100), []))"
  by (simp add: select_best_axis_def evaluate_axis_def boundary_geometry_def rect_geometry_def
      boundary_split_def example_region_def choose_axis_def square_measure_def
      calculate_squareness_metrics_def Let_def rect_diagonal_boundary)

lemma decompose_boundary:
  "decompose boundary_geometry example_config example_region [] 0 initial_state
     = (False, initial_state)"
proof -
  obtain ov where s: "select_best_axis boundary_geometry ''brent'' (1 / 100) example_region [] =
     Some (Y, ov, 100, (example_region, []), ((0, 100, 100, 100), []))"
    using select_boundary by blast
  have v: "is_subregion_valid boundary_geometry example_config example_region []"
    by (simp add: is_subregion_valid_def boundary_geometry_def rect_geometry_def rect_area_def
        COVERAGE_RATIO_STOP_def example_region_def)
  have c: "\<not> coverage_stop boundary_geometry example_region []"
    by (simp add: coverage_stop_def boundary_geometry_def rect_geometry_def rect_area_def
        COVERAGE_RATIO_STOP_def example_region_def Let_def)
  have e: "\<not> geom_is_empty boundary_geometry example_region"
    by (simp add: boundary_geometry_def rect_geometry_def)
  have a: "attempt_partition boundary_geometry example_config example_region [] Y 0 100
       (example_region, []) ((0, 100, 100, 100), []) initial_state = (False, initial_state)"
    by (subst attempt_partition_unfold)
       (simp add: degenerate_cut_def boundary_geometry_def rect_geometry_def example_region_def
          initial_state_def)
  show ?thesis
    by (subst decompose_unfold) (simp add: v c e s a)
qed

lemma run_boundary:
  "run boundary_geometry example_config example_region [] = [(example_region, [], [], True)]"
  by (simp add: run_def decompose_boundary) (simp add: store_partition_def initial_state_def)

lemma example_config_fallback:
  "example_config\<lparr>allow_fallback_axis := True\<rparr> = example_config"
  by (simp add: example_config_def)

theorem fallback_witness:
  "run boundary_geometry (example_config\<lparr>allow_fallback_axis := True\<rparr>) example_region []
     = [(example_region, [], [], True)]
   \<and> run boundary_geometry (example_config\<lparr>allow_fallback_axis := False\<rparr>) example_region []
     = [(example_region, [], [], True)]
   \<and> length (filter valid_flag
        (run boundary_geometry (example_config\<lparr>allow_fallback_axis := False\<rparr>) example_region []))
     \<le> length (filter valid_flag
        (run boundary_geometry (example_config\<lparr>allow_fallback_axis := True\<rparr>) example_region []))"
proof -
  have t: "run boundary_geometry (example_config\<lparr>allow_fallback_axis := True\<rparr>) example_region []
     = [(example_region, [], [], True)]"
    by (simp only: example_config_fallback run_boundary)
  have f: "run boundary_geometry (example_config\<lparr>allow_fallback_axis := False\<rparr>) example_region []
     = [(example_region, [], [], True)]"
    by (simp only: run_fallback_irrelevant run_boundary)
  show ?thesis
    using fallback_at_least_as_many_valid [of boundary_geometry example_config example_region "[]"]
    by (simp only: t f simp_thms)
qed

theorem stack_balanced_witness:
  "partitions (snd (attempt_partition rect_geometry example_config example_region [] X 0 50
      ((0, 0, 50, 100), []) ((50, 0, 100, 100), []) initial_state))
     = [((0, 0, 50, 100), [], [X], True), ((50, 0, 100, 100), [], [X], True)]
   \<and> axis_stack (snd (attempt_partition rect_geometry example_config example_region [] X 0 50
      ((0, 0, 50, 100), []) ((50, 0, 100, 100), []) initial_state)) = []
   \<and> mode example_config = ''track_back''
   \<and> \<not> fst (decompose failing_geometry example_config example_region [] 0 initial_state)
   \<and> last (run failing_geometry example_config example_region []) = (example_region, [], [], True)"
  using stack_balanced [where G = rect_geometry and cfg = example_config
      and region = example_region and obstacles = "[]" and ax = X and depth = 0 and dp = 50
      and subL = "((0, 0, 50, 100), [])" and subR = "((50, 0, 100, 100), [])"
      and st = initial_state]
    stack_balanced [where G = failing_geometry and cfg = example_config
      and region = example_region and obstacles = "[]" and ax = X and depth = 0 and dp = 50
      and subL = "((0, 0, 50, 100), [])" and subR = "((50, 0, 100, 100), [])"
      and st = initial_state]
  by (simp add: attempt_example decompose_failing run_failing)

section \<open>Properties of the axis selector\<close>

lemma choose_axis_rule:
  assumes "0 \<le> tie_threshold"
  shows "(\<bar>NWCRT mx - NWCRT my\<bar> > tie_threshold \<longrightarrow>
            NWCRT (metrics_of (choose_axis tie_threshold mx my) (mx, my))
              < NWCRT (metrics_of (other_axis (choose_axis tie_threshold mx my)) (mx, my)))
         \<and> (\<bar>NWCRT mx - NWCRT my\<bar> \<le> tie_threshold \<longrightarrow>
            MSDU (metrics_of (choose_axis tie_threshold mx my) (mx, my))
              \<ge> MSDU (metrics_of (other_axis (choose_axis tie_threshold mx my)) (mx, my)))"
  using assms
  by (auto simp: choose_axis_def metrics_of_def other_axis_def Let_def)

lemma select_best_axis_Some:
  assumes "select_best_axis G method tie_threshold region obstacles
             = Some (best_axis, overall, dp, subL, subR)"
  shows "evaluate_axis G method region obstacles X = Some (fst overall)
     \<and> evaluate_axis G method region obstacles Y = Some (snd overall)
     \<and> best_axis = choose_axis tie_threshold (fst overall) (snd overall)
     \<and> dp = m_division_point (metrics_of best_axis overall)
     \<and> subL = m_subregion_left (metrics_of best_axis overall)
     \<and> subR = m_subregion_right (metrics_of best_axis overall)"
  using assms
  by (auto simp: select_best_axis_def metrics_of_def Let_def split: option.splits axis.splits)

text \<open>
  The rule of \<open>select_best_axis\<close> in terms of the MSDU that \<open>evaluate_axis\<close> computes: with a
  tie threshold that is not negative it returns the axis with the strictly smaller NWCRT
  when the two NWCRT values differ by more than the tie threshold, and otherwise an axis
  whose computed MSDU is at least that of the other axis.
\<close>

lemma select_best_axis_rule:
  assumes "select_best_axis G method tie_threshold region obstacles
             = Some (best_axis, overall, dp, subL, subR)"
    and "0 \<le> tie_threshold"
  shows "evaluate_axis G method region obstacles X = Some (fst overall)
     \<and> evaluate_axis G method region obstacles Y = Some (snd overall)
     \<and> (\<bar>NWCRT (fst overall) - NWCRT (snd overall)\<bar> > tie_threshold \<longrightarrow>
           NWCRT (metrics_of best_axis overall) < NWCRT (metrics_of (other_axis best_axis) overall))
     \<and> (\<bar>NWCRT (fst overall) - NWCRT (snd overall)\<bar> \<le> tie_threshold \<longrightarrow>
           MSDU (metrics_of best_axis overall) \<ge> MSDU (metrics_of (other_axis best_axis) overall))
     \<and> dp = m_division_point (metrics_of best_axis overall)
     \<and> subL = m_subregion_left (metrics_of best_axis overall)
     \<and> subR = m_subregion_right (metrics_of best_axis overall)"
proof -
  note s = select_best_axis_Some [OF assms(1)]
  have o: "overall = (fst overall, snd overall)" by simp
  from s have b: "best_axis = choose_axis tie_threshold (fst overall) (snd overall)" by simp
  from choose_axis_rule [OF assms(2), of "fst overall" "snd overall"]
  have "(\<bar>NWCRT (fst overall) - NWCRT (snd overall)\<bar> > tie_threshold \<longrightarrow>
           NWCRT (metrics_of best_axis overall) < NWCRT (metrics_of (other_axis best_axis) overall))
     \<and> (\<bar>NWCRT (fst overall) - NWCRT (snd overall)\<bar> \<le> tie_threshold \<longrightarrow>
           MSDU (metrics_of best_axis overall) \<ge> MSDU (metrics_of (other_axis best_axis) overall))"
    unfolding b [symmetric] o [symmetric] .
  with s show ?thesis by blast
qed

lemma eval_x_90: "evaluate_axis rect_geometry ''brent'' (0, 0, 90, 100) [] X =
   Some \<lparr> NWCRT = 0, MSDU = 1 / (121 / 400 + 1 / 10 ^ 9), m_division_point = 45,
          m_subregion_left = ((0, 0, 45, 100), []), m_subregion_right = ((45, 0, 90, 100), []) \<rparr>"
  by (simp add: evaluate_axis_def rect_geometry_def midpoint_split_def
      rect_diagonal_def square_measure_def calculate_squareness_metrics_def Let_def power2_eq_square)

lemma eval_y_90: "evaluate_axis rect_geometry ''brent'' (0, 0, 90, 100) [] Y =
   Some \<lparr> NWCRT = 0, MSDU = 1 / (16 / 25 + 1 / 10 ^ 9), m_division_point = 50,
          m_subregion_left = ((0, 0, 90, 50), []), m_subregion_right = ((0, 50, 90, 100), []) \<rparr>"
  by (simp add: evaluate_axis_def rect_geometry_def midpoint_split_def
      rect_diagonal_def square_measure_def calculate_squareness_metrics_def Let_def power2_eq_square)

text \<open>
  Claim C4.  On the \<open>90 \<times> 100\<close> rectangle without obstacles the NWCRT of both axes is \<open>0\<close>, a
  tie, and \<open>select_best_axis\<close> returns \<open>x\<close>.  The MSDU of the specification, computed from
  \<open>min(w/h, h/w)\<close>, is smaller for the cut along \<open>x\<close> (two \<open>45 \<times> 100\<close> halves) than for the cut
  along \<open>y\<close> (two \<open>90 \<times> 50\<close> halves): the chosen axis is not the one with the larger MSDU.
  The MSDU that the code compares is computed from \<open>w / h\<close>, the value of \<open>_square_measure\<close>.
\<close>

theorem select_best_axis_smaller_msdu:
  "select_best_axis rect_geometry ''brent'' (1 / 100) (0, 0, 90, 100) [] =
     Some (X,
       (\<lparr> NWCRT = 0, MSDU = 1 / (121 / 400 + 1 / 10 ^ 9), m_division_point = 45,
          m_subregion_left = ((0, 0, 45, 100), []), m_subregion_right = ((45, 0, 90, 100), []) \<rparr>,
        \<lparr> NWCRT = 0, MSDU = 1 / (16 / 25 + 1 / 10 ^ 9), m_division_point = 50,
          m_subregion_left = ((0, 0, 90, 50), []), m_subregion_right = ((0, 50, 90, 100), []) \<rparr>),
       45, ((0, 0, 45, 100), []), ((45, 0, 90, 100), []))
   \<and> MSDU_spec (0, 0, 45, 100) (45, 0, 90, 100) = 1 / (121 / 400 + 1 / 10 ^ 9)
   \<and> MSDU_spec (0, 0, 90, 50) (0, 50, 90, 100) = 1 / (16 / 81 + 1 / 10 ^ 9)
   \<and> MSDU_spec (0, 0, 45, 100) (45, 0, 90, 100) < MSDU_spec (0, 0, 90, 50) (0, 50, 90, 100)"
  by (simp add: select_best_axis_def eval_x_90 eval_y_90 choose_axis_def MSDU_spec_def
      aspect_ratio_spec_def power2_eq_square)

lemma square_measure_ratio:
  assumes "\<not> geom_is_empty G polygon" and "geom_bounds G polygon = (minx, miny, maxx, maxy)"
    and "1 / 10 ^ 9 \<le> maxx - minx" and "1 / 10 ^ 9 \<le> maxy - miny"
  shows "square_measure G polygon = (maxx - minx) / (maxy - miny)"
  using assms by (simp add: square_measure_def Let_def not_less [symmetric])

text \<open>
  Claim C8.  \<open>_square_measure\<close> returns the ratio \<open>w / h\<close> of the bounding box, which exceeds \<open>1\<close>
  for a box wider than high, and not the smaller of \<open>w / h\<close> and \<open>h / w\<close>: for a \<open>2 \<times> 1\<close> box
  it returns \<open>2\<close>, where the smaller ratio is \<open>1 / 2\<close>.
\<close>

theorem square_measure_wide_box:
  "square_measure rect_geometry (0, 0, 2, 1) = 2
   \<and> min ((2 - 0) / (1 - 0)) ((1 - 0) / (2 - 0)) = (1 / 2 :: real)"
  by (simp add: square_measure_def rect_geometry_def)


section \<open>Properties of the numerical solvers\<close>

lemma brent_step_not_invalid: "brent_step f st \<noteq> Inl InvalidBracket"
proof -
  obtain a b c fa fb fc where st: "st = (a, b, c, fa, fb, fc)" by (cases st) auto
  have iq: "inverse_quadratic_step a b c fa fb fc \<noteq> Inl InvalidBracket"
    by (simp add: inverse_quadratic_step_def py_div_def)
  have se: "secant_step a b fa fb \<noteq> Inl InvalidBracket"
    by (simp add: secant_step_def py_div_def)
  define r where "r = (if fa \<noteq> fc \<and> fb \<noteq> fc then inverse_quadratic_step a b c fa fb fc
               else secant_step a b fa fb)"
  have r: "r \<noteq> Inl InvalidBracket" using iq se by (simp add: r_def)
  show ?thesis
  proof (cases r)
    case (Inl e)
    with r have "e \<noteq> InvalidBracket" by simp
    moreover have "brent_step f st = Inl e"
      unfolding brent_step_def st prod.case r_def [symmetric] Inl by simp
    ultimately show ?thesis by simp
  next
    case (Inr s0)
    show ?thesis
      unfolding brent_step_def st prod.case r_def [symmetric] Inr by (simp add: Let_def)
  qed
qed

lemma brent_loop_not_invalid: "brent_loop f tol n st \<noteq> Inl InvalidBracket"
proof (induction n arbitrary: st)
  case 0
  show ?case by (cases st) simp
next
  case (Suc n)
  obtain a b c fa fb fc where st: "st = (a, b, c, fa, fb, fc)" by (cases st) auto
  show ?case
    using Suc brent_step_not_invalid [of f "(a, b, c, fa, fb, fc)"]
    by (auto simp: st split: sum.split)
qed

lemma sign_change_kept:
  fixes fa fb fs :: real
  assumes "fa * fb < 0" and "\<not> fa * fs < 0"
  shows "fs * fb < 0 \<or> fs = 0"
proof (cases "fs = 0")
  case True
  then show ?thesis by simp
next
  case False
  from assms(1) have "(fa < 0 \<and> 0 < fb) \<or> (0 < fa \<and> fb < 0)"
    by (auto simp: mult_less_0_iff)
  moreover from assms(2) False have "(fa \<le> 0 \<and> fs < 0) \<or> (0 \<le> fa \<and> 0 < fs)"
    by (auto simp: mult_less_0_iff not_less)
  ultimately have "(fs < 0 \<and> 0 < fb) \<or> (0 < fs \<and> fb < 0)" by auto
  then show ?thesis by (auto simp: mult_less_0_iff)
qed

lemma brent_step_keeps_bracket:
  assumes "fa * fb < 0"
  shows "\<exists>a' b' c' fa' fb' fc'. brent_step f (a, b, c, fa, fb, fc) = Inr (a', b', c', fa', fb', fc')
           \<and> (fa' * fb' < 0 \<or> fb' = 0)"
proof -
  from assms have ne: "fa \<noteq> fb" by auto
  have "\<exists>s0. (if fa \<noteq> fc \<and> fb \<noteq> fc then inverse_quadratic_step a b c fa fb fc
               else secant_step a b fa fb) = Inr s0"
    using ne by (simp add: inverse_quadratic_step_def secant_step_def py_div_def)
  then obtain s0 where s0: "(if fa \<noteq> fc \<and> fb \<noteq> fc then inverse_quadratic_step a b c fa fb fc
               else secant_step a b fa fb) = Inr s0" ..
  define s where "s = (if (if a < b then s0 < (3 * a + b) / 4 \<or> s0 > b
                         else s0 > (3 * a + b) / 4 \<or> s0 < b) \<or> \<bar>s0 - b\<bar> \<ge> \<bar>b - c\<bar> / 2
                         then (a + b) / 2 else s0)"
  define fs where "fs = f s"
  define a1 where "a1 = (if fa * fs < 0 then a else s)"
  define fa1 where "fa1 = (if fa * fs < 0 then fa else fs)"
  define b1 where "b1 = (if fa * fs < 0 then s else b)"
  define fb1 where "fb1 = (if fa * fs < 0 then fs else fb)"
  have step: "brent_step f (a, b, c, fa, fb, fc) =
      (if \<bar>fa1\<bar> < \<bar>fb1\<bar> then Inr (b1, a1, b, fb1, fa1, fb) else Inr (a1, b1, b, fa1, fb1, fb))"
    unfolding brent_step_def prod.case s0 sum.case Let_def
      s_def fs_def a1_def fa1_def b1_def fb1_def ..
  have inv: "fa1 * fb1 < 0 \<or> fa1 = 0"
  proof (cases "fa * fs < 0")
    case True
    then show ?thesis by (simp add: fa1_def fb1_def)
  next
    case False
    then have "fa1 = fs" "fb1 = fb" by (simp_all add: fa1_def fb1_def)
    with sign_change_kept [OF assms False] show ?thesis by simp
  qed
  show ?thesis
  proof (cases "\<bar>fa1\<bar> < \<bar>fb1\<bar>")
    case True
    have "fb1 * fa1 < 0 \<or> fa1 = 0" using inv by (simp add: mult.commute)
    with True step show ?thesis by simp
  next
    case False
    have "fa1 * fb1 < 0 \<or> fb1 = 0" using inv False by auto
    with False step show ?thesis by simp
  qed
qed

lemma brent_loop_returns:
  assumes "0 < tol"
  shows "fa * fb < 0 \<or> fb = 0 \<Longrightarrow> \<exists>x. brent_loop f tol n (a, b, c, fa, fb, fc) = Inr x"
proof (induction n arbitrary: a b c fa fb fc)
  case 0
  show ?case by simp
next
  case (Suc n)
  show ?case
  proof (cases "\<bar>fb\<bar> < tol \<or> \<bar>b - a\<bar> < tol")
    case True
    then show ?thesis by simp
  next
    case False
    with assms have "fb \<noteq> 0" by auto
    with Suc.prems have neg: "fa * fb < 0" by simp
    from brent_step_keeps_bracket [OF neg, of f a b c fc]
    obtain a' b' c' fa' fb' fc' where
      st: "brent_step f (a, b, c, fa, fb, fc) = Inr (a', b', c', fa', fb', fc')"
      and inv: "fa' * fb' < 0 \<or> fb' = 0" by blast
    from Suc.IH [OF inv] obtain x where "brent_loop f tol n (a', b', c', fa', fb', fc') = Inr x" ..
    with False st show ?thesis by simp
  qed
qed

lemma brent_loop_converged:
  "0 < n \<Longrightarrow> \<bar>fb\<bar> < tol \<or> \<bar>b - a\<bar> < tol \<Longrightarrow> brent_loop f tol n (a, b, c, fa, fb, fc) = Inr b"
  by (cases n) simp_all

lemma brent_loop_unroll:
  "n = Suc m \<Longrightarrow> \<not> (\<bar>fb\<bar> < tol \<or> \<bar>b - a\<bar> < tol) \<Longrightarrow>
     brent_loop f tol n (a, b, c, fa, fb, fc) =
       (case brent_step f (a, b, c, fa, fb, fc) of
          Inl e \<Rightarrow> Inl e
        | Inr st \<Rightarrow> brent_loop f tol m st)"
  by simp

lemma solve_for_root_brent_invalid_iff:
  "solve_for_root_brent f a b tol max_iter = Inl InvalidBracket \<longleftrightarrow> f a * f b > 0"
  by (simp add: solve_for_root_brent_def Let_def brent_loop_not_invalid)

lemma solve_for_root_brent_start:
  "\<not> f a * f b > 0 \<Longrightarrow>
     solve_for_root_brent f a b tol max_iter = brent_loop f tol (nat max_iter) (brent_start f a b)"
  by (simp add: solve_for_root_brent_def brent_start_def Let_def)

lemma brent_loop_passes:
  assumes tol: "0 < tol"
  shows "fa * fb < 0 \<or> fb = 0 \<Longrightarrow>
    \<exists>k st'. k \<le> n \<and> brent_passes f k (a, b, c, fa, fb, fc) = Inr st'
      \<and> (\<forall>j < k. \<forall>sj. brent_passes f j (a, b, c, fa, fb, fc) = Inr sj \<longrightarrow> \<not> brent_converged tol sj)
      \<and> (k < n \<longrightarrow> brent_converged tol st')
      \<and> brent_loop f tol n (a, b, c, fa, fb, fc) = Inr (current_approximation st')"
proof (induction n arbitrary: a b c fa fb fc)
  case 0
  have "brent_passes f 0 (a, b, c, fa, fb, fc) = Inr (a, b, c, fa, fb, fc)
      \<and> brent_loop f tol 0 (a, b, c, fa, fb, fc) = Inr (current_approximation (a, b, c, fa, fb, fc))"
    by (simp add: current_approximation_def)
  then show ?case by (intro exI [of _ 0] exI [of _ "(a, b, c, fa, fb, fc)"]) simp
next
  case (Suc n)
  let ?st = "(a, b, c, fa, fb, fc)"
  show ?case
  proof (cases "\<bar>fb\<bar> < tol \<or> \<bar>b - a\<bar> < tol")
    case True
    then have "brent_passes f 0 ?st = Inr ?st \<and> brent_converged tol ?st
        \<and> brent_loop f tol (Suc n) ?st = Inr (current_approximation ?st)"
      by (simp add: current_approximation_def brent_converged_def)
    then show ?thesis by (intro exI [of _ 0] exI [of _ ?st]) simp
  next
    case False
    with tol have "fb \<noteq> 0" by auto
    with Suc.prems have neg: "fa * fb < 0" by simp
    from brent_step_keeps_bracket [OF neg, of f a b c fc]
    obtain a' b' c' fa' fb' fc' where
      st: "brent_step f ?st = Inr (a', b', c', fa', fb', fc')"
      and inv: "fa' * fb' < 0 \<or> fb' = 0" by blast
    let ?st1 = "(a', b', c', fa', fb', fc')"
    from Suc.IH [OF inv] obtain k st' where k: "k \<le> n"
      and p: "brent_passes f k ?st1 = Inr st'"
      and nc: "\<forall>j < k. \<forall>sj. brent_passes f j ?st1 = Inr sj \<longrightarrow> \<not> brent_converged tol sj"
      and cv: "k < n \<longrightarrow> brent_converged tol st'"
      and l: "brent_loop f tol n ?st1 = Inr (current_approximation st')"
      by blast
    have p': "brent_passes f (Suc k) ?st = Inr st'" using st p by simp
    have nc': "\<forall>j < Suc k. \<forall>sj. brent_passes f j ?st = Inr sj \<longrightarrow> \<not> brent_converged tol sj"
    proof (intro allI impI)
      fix j sj
      assume j: "j < Suc k" and s: "brent_passes f j ?st = Inr sj"
      show "\<not> brent_converged tol sj"
      proof (cases j)
        case 0
        with s have "sj = ?st" by simp
        with False show ?thesis by (simp add: brent_converged_def)
      next
        case (Suc j')
        with s st have "brent_passes f j' ?st1 = Inr sj" by simp
        moreover from j Suc have "j' < k" by simp
        ultimately show ?thesis using nc by blast
      qed
    qed
    have l': "brent_loop f tol (Suc n) ?st = Inr (current_approximation st')"
      using False st l by simp
    from k p' nc' cv l' show ?thesis
      by (intro exI [of _ "Suc k"] exI [of _ st']) simp
  qed
qed

lemma brent_start_bracket:
  assumes "f a * f b \<le> 0"
  shows "\<exists>a' b' c' fa' fb' fc'. brent_start f a b = (a', b', c', fa', fb', fc')
    \<and> (fa' * fb' < 0 \<or> fb' = 0)"
proof (cases "\<bar>f a\<bar> < \<bar>f b\<bar>")
  case True
  have "f b * f a < 0 \<or> f a = 0" using assms True by (auto simp: mult.commute less_le)
  with True show ?thesis by (simp add: brent_start_def)
next
  case False
  have "f a * f b < 0 \<or> f b = 0" using assms False by (auto simp: less_le)
  with False show ?thesis by (simp add: brent_start_def)
qed

lemma brent_zero_product:
  assumes tol: "0 < tol" and z: "f a * f b = 0"
  shows "solve_for_root_brent f a b tol max_iter = Inr (if \<bar>f a\<bar> < \<bar>f b\<bar> then a else b)
     \<and> f (if \<bar>f a\<bar> < \<bar>f b\<bar> then a else b) = 0"
proof (cases "\<bar>f a\<bar> < \<bar>f b\<bar>")
  case True
  with z have fa: "f a = 0" by auto
  have "brent_loop f tol n (b, a, b, f b, f a, f b) = Inr a" for n
    using tol fa by (cases n) simp_all
  with True fa show ?thesis by (simp add: solve_for_root_brent_def Let_def)
next
  case False
  with z have fb: "f b = 0" by auto
  have "brent_loop f tol n (a, b, a, f a, f b, f a) = Inr b" for n
    using tol fb by (cases n) simp_all
  with False fb show ?thesis by (simp add: solve_for_root_brent_def Let_def)
qed

text \<open>
  Claim C5, as amended.  \<open>solve_for_root_brent\<close> raises the invalid-bracket error if and only if
  \<open>f(a) \<cdot> f(b) > 0\<close>.  With a positive tolerance and \<open>f(a) \<cdot> f(b) \<le> 0\<close> it raises nothing and
  returns the current approximation \<open>b\<close>: that of the first pass of the loop whose convergence
  test succeeds, or, when no pass converges within \<open>max_iter\<close>, that after \<open>max_iter\<close> passes.
  With a positive tolerance and \<open>f(a) \<cdot> f(b) = 0\<close> it returns the end of the bracket with the
  smaller \<open>|f|\<close>, which is a root.
\<close>

theorem brent_bracket_rule:
  "(solve_for_root_brent f a b tol max_iter = Inl InvalidBracket \<longleftrightarrow> f a * f b > 0)
   \<and> (0 < tol \<and> f a * f b \<le> 0 \<longrightarrow>
        (\<exists>k st. k \<le> nat max_iter
           \<and> brent_passes f k (brent_start f a b) = Inr st
           \<and> (\<forall>j < k. \<forall>sj. brent_passes f j (brent_start f a b) = Inr sj \<longrightarrow>
                  \<not> brent_converged tol sj)
           \<and> (k < nat max_iter \<longrightarrow> brent_converged tol st)
           \<and> solve_for_root_brent f a b tol max_iter = Inr (current_approximation st)))
   \<and> (0 < tol \<and> f a * f b = 0 \<longrightarrow>
        solve_for_root_brent f a b tol max_iter = Inr (if \<bar>f a\<bar> < \<bar>f b\<bar> then a else b)
        \<and> f (if \<bar>f a\<bar> < \<bar>f b\<bar> then a else b) = 0)"
proof (intro conjI impI)
  show "solve_for_root_brent f a b tol max_iter = Inl InvalidBracket \<longleftrightarrow> f a * f b > 0"
    by (rule solve_for_root_brent_invalid_iff)
next
  assume h: "0 < tol \<and> f a * f b \<le> 0"
  then have tol: "0 < tol" and le: "f a * f b \<le> 0" by simp_all
  from le have s: "solve_for_root_brent f a b tol max_iter
      = brent_loop f tol (nat max_iter) (brent_start f a b)"
    by (intro solve_for_root_brent_start) simp
  from brent_start_bracket [of f a b, OF le] obtain a' b' c' fa' fb' fc' where
    st: "brent_start f a b = (a', b', c', fa', fb', fc')" and inv: "fa' * fb' < 0 \<or> fb' = 0"
    by blast
  from brent_loop_passes [OF tol inv, of "nat max_iter" f a' b' c' fc']
  show "\<exists>k st. k \<le> nat max_iter
           \<and> brent_passes f k (brent_start f a b) = Inr st
           \<and> (\<forall>j < k. \<forall>sj. brent_passes f j (brent_start f a b) = Inr sj \<longrightarrow>
                  \<not> brent_converged tol sj)
           \<and> (k < nat max_iter \<longrightarrow> brent_converged tol st)
           \<and> solve_for_root_brent f a b tol max_iter = Inr (current_approximation st)"
    unfolding s st .
next
  assume "0 < tol \<and> f a * f b = 0"
  then show "solve_for_root_brent f a b tol max_iter = Inr (if \<bar>f a\<bar> < \<bar>f b\<bar> then a else b)"
    using brent_zero_product by blast
next
  assume "0 < tol \<and> f a * f b = 0"
  then show "f (if \<bar>f a\<bar> < \<bar>f b\<bar> then a else b) = 0"
    using brent_zero_product [of tol f a b] by blast
qed

lemma brent_shifted:
  "solve_for_root_brent shifted_fn 0 3 (1 / 10 ^ 7) 100 = Inr 1"
proof -
  have s1: "brent_step shifted_fn (3, 0, 3, 2, - 1, 2) = Inr (0, 1, 0, - 1, 0, - 1)"
    by (simp add: brent_step_def secant_step_def py_div_def shifted_fn_def Let_def)
  have "brent_loop shifted_fn (1 / 10 ^ 7) 100 (3, 0, 3, 2, - 1, 2)
      = brent_loop shifted_fn (1 / 10 ^ 7) 99 (0, 1, 0, - 1, 0, - 1)"
    by (subst brent_loop_unroll [where m = 99]) (simp_all add: s1)
  also have "\<dots> = Inr 1"
    by (rule brent_loop_converged) simp_all
  finally show ?thesis
    by (simp add: solve_for_root_brent_def shifted_fn_def Let_def)
qed

lemma shifted_start: "brent_start shifted_fn 0 3 = (3, 0, 3, 2, - 1, 2)"
  by (simp add: brent_start_def shifted_fn_def)

lemma shifted_step_1:
  "brent_step shifted_fn (3, 0, 3, 2, - 1, 2) = Inr (0, 1, 0, - 1, 0, - 1)"
  by (simp add: brent_step_def secant_step_def py_div_def shifted_fn_def Let_def)

lemma shifted_step_2:
  "brent_step shifted_fn (0, 1, 0, - 1, 0, - 1) = Inr (1, 1, 1, 0, 0, 0)"
  by (simp add: brent_step_def secant_step_def py_div_def shifted_fn_def Let_def)

lemma shifted_step_3:
  "brent_step shifted_fn (1, 1, 1, 0, 0, 0) = Inl ZeroDivision"
  by (simp add: brent_step_def secant_step_def py_div_def shifted_fn_def Let_def)

lemma brent_zero_tolerance:
  "solve_for_root_brent shifted_fn 0 3 0 100 = Inl ZeroDivision"
proof -
  have "brent_loop shifted_fn 0 100 (3, 0, 3, 2, - 1, 2)
      = brent_loop shifted_fn 0 99 (0, 1, 0, - 1, 0, - 1)"
    by (subst brent_loop_unroll [where m = 99]) (simp_all add: shifted_step_1)
  also have "\<dots> = brent_loop shifted_fn 0 98 (1, 1, 1, 0, 0, 0)"
    by (subst brent_loop_unroll [where m = 98]) (simp_all add: shifted_step_2)
  also have "\<dots> = Inl ZeroDivision"
    by (subst brent_loop_unroll [where m = 97]) (simp_all add: shifted_step_3)
  finally show ?thesis
    by (simp add: solve_for_root_brent_def shifted_fn_def Let_def)
qed

lemma brent_shifted_1:
  "solve_for_root_brent shifted_fn 0 3 (1 / 10 ^ 7) 1 = Inr 1"
proof -
  have "brent_loop shifted_fn (1 / 10 ^ 7) 1 (3, 0, 3, 2, - 1, 2)
      = brent_loop shifted_fn (1 / 10 ^ 7) 0 (0, 1, 0, - 1, 0, - 1)"
    by (subst brent_loop_unroll [where m = 0]) (simp_all add: shifted_step_1)
  then show ?thesis
    by (simp add: solve_for_root_brent_def shifted_fn_def Let_def)
qed

text \<open>
  On \<open>f(x) = x - 1\<close> and \<open>[0, 3]\<close> the first pass does not converge and the second does, at
  the root \<open>1\<close>; with \<open>max_iter = 1\<close> the approximation after one pass is returned.  On
  \<open>f(x) = x\<close> and \<open>[0, 1]\<close> the product is zero and the end \<open>0\<close> is returned.
\<close>

theorem brent_bracket_rule_witness:
  "0 < (1 / 10 ^ 7 :: real) \<and> shifted_fn 0 * shifted_fn 3 \<le> 0
   \<and> brent_passes shifted_fn 1 (brent_start shifted_fn 0 3) = Inr (0, 1, 0, - 1, 0, - 1)
   \<and> \<not> brent_converged (1 / 10 ^ 7) (brent_start shifted_fn 0 3)
   \<and> brent_converged (1 / 10 ^ 7) (0, 1, 0, - 1, 0, - 1)
   \<and> current_approximation (0, 1, 0, - 1, 0, - 1) = 1
   \<and> solve_for_root_brent shifted_fn 0 3 (1 / 10 ^ 7) 100 = Inr 1
   \<and> solve_for_root_brent shifted_fn 0 3 (1 / 10 ^ 7) 1 = Inr 1
   \<and> (\<exists>k st. k \<le> nat 100
         \<and> brent_passes shifted_fn k (brent_start shifted_fn 0 3) = Inr st
         \<and> solve_for_root_brent shifted_fn 0 3 (1 / 10 ^ 7) 100 = Inr (current_approximation st))
   \<and> identity_fn 0 * identity_fn 1 = 0
   \<and> solve_for_root_brent identity_fn 0 1 (1 / 10 ^ 7) 100 = Inr 0
   \<and> identity_fn 0 = 0"
proof -
  have a: "0 < (1 / 10 ^ 7 :: real) \<and> shifted_fn 0 * shifted_fn 3 \<le> 0"
    by (simp add: shifted_fn_def)
  have b: "0 < (1 / 10 ^ 7 :: real) \<and> identity_fn 0 * identity_fn 1 = 0"
    by (simp add: identity_fn_def)
  note r1 = brent_bracket_rule [of shifted_fn 0 3 "1 / 10 ^ 7" 100]
  note r2 = brent_bracket_rule [of identity_fn 0 1 "1 / 10 ^ 7" 100]
  from r1 a have e: "\<exists>k st. k \<le> nat 100
         \<and> brent_passes shifted_fn k (brent_start shifted_fn 0 3) = Inr st
         \<and> solve_for_root_brent shifted_fn 0 3 (1 / 10 ^ 7) 100 = Inr (current_approximation st)"
    by blast
  from r2 b have z: "solve_for_root_brent identity_fn 0 1 (1 / 10 ^ 7) 100
      = Inr (if \<bar>identity_fn 0\<bar> < \<bar>identity_fn 1\<bar> then 0 else 1)"
    by blast
  have z': "solve_for_root_brent identity_fn 0 1 (1 / 10 ^ 7) 100 = Inr 0"
    unfolding z by (simp add: identity_fn_def)
  have p: "brent_passes shifted_fn 1 (brent_start shifted_fn 0 3) = Inr (0, 1, 0, - 1, 0, - 1)"
    by (simp add: shifted_start shifted_step_1)
  have c: "\<not> brent_converged (1 / 10 ^ 7) (brent_start shifted_fn 0 3)"
    "brent_converged (1 / 10 ^ 7) (0, 1, 0, - 1, 0, - 1)"
    "current_approximation (0, 1, 0, - 1, 0, - 1) = 1"
    by (simp_all add: shifted_start brent_converged_def current_approximation_def)
  have i: "identity_fn 0 = 0" by (simp add: identity_fn_def)
  show ?thesis
    using a b e z' p c i brent_shifted brent_shifted_1 by (simp only: simp_thms)
qed

text \<open>
  The claim as stated fails for a root at an end of the bracket: the product is not negative
  and the solver returns that end.  With a tolerance of zero it fails also on a bracket with
  a sign change: on \<open>f(x) = x - 1\<close> and \<open>[0, 3]\<close> the third pass divides by zero.
\<close>

theorem brent_bracket_counterexample:
  "\<not> identity_fn 0 * identity_fn 1 < 0
   \<and> solve_for_root_brent identity_fn 0 1 (1 / 10 ^ 7) 100 = Inr 0
   \<and> shifted_fn 0 * shifted_fn 3 < 0
   \<and> solve_for_root_brent shifted_fn 0 3 0 100 = Inl ZeroDivision"
proof -
  have "brent_loop identity_fn (1 / 10 ^ 7) 100 (1, 0, 1, 1, 0, 1) = Inr 0"
    by (rule brent_loop_converged) simp_all
  then show ?thesis
    using brent_zero_tolerance
    by (simp add: solve_for_root_brent_def identity_fn_def shifted_fn_def Let_def)
qed

section \<open>Properties of the divider\<close>

subsection \<open>The strip of interest\<close>

lemma first_minimum_None [simp]: "first_minimum f xs = None \<longleftrightarrow> xs = []"
  by (cases xs) (auto split: option.split)

lemma first_minimum_props:
  "first_minimum f xs = Some s \<Longrightarrow>
     \<exists>i < length xs. xs ! i = s \<and> (\<forall>j < length xs. f s \<le> f (xs ! j)) \<and> (\<forall>j < i. f s < f (xs ! j))"
proof (induction xs arbitrary: s)
  case Nil
  then show ?case by simp
next
  case (Cons x xs)
  show ?case
  proof (cases "first_minimum f xs")
    case None
    then have "xs = []" by simp
    with Cons.prems show ?thesis by simp
  next
    case (Some y)
    from Cons.IH [OF Some] obtain i where i: "i < length xs" "xs ! i = y"
      "\<forall>j < length xs. f y \<le> f (xs ! j)" "\<forall>j < i. f y < f (xs ! j)" by blast
    show ?thesis
    proof (cases "f x \<le> f y")
      case True
      with Cons.prems Some have s: "s = x" by simp
      have "\<forall>j < length (x # xs). f s \<le> f ((x # xs) ! j)"
      proof (intro allI impI)
        fix j assume "j < length (x # xs)"
        then show "f s \<le> f ((x # xs) ! j)"
          using i(3) True s by (cases j) (auto intro: order_trans)
      qed
      then show ?thesis using s by (intro exI [of _ 0]) simp
    next
      case False
      with Cons.prems Some have s: "s = y" by simp
      have a: "\<forall>j < length (x # xs). f s \<le> f ((x # xs) ! j)"
      proof (intro allI impI)
        fix j assume "j < length (x # xs)"
        then show "f s \<le> f ((x # xs) ! j)"
          using i(3) False s by (cases j) auto
      qed
      have b: "\<forall>j < Suc i. f s < f ((x # xs) ! j)"
      proof (intro allI impI)
        fix j assume "j < Suc i"
        then show "f s < f ((x # xs) ! j)"
          using i(4) False s by (cases j) auto
      qed
      show ?thesis using s i(1,2) a b by (intro exI [of _ "Suc i"]) simp
    qed
  qed
qed

lemma find_strip_loop_step:
  "find_strip_loop sm best md ((cp, cc, geo) # rest) =
     (if crossing sm (cp, cc, geo) then Some (cp, cc, geo)
      else find_strip_loop sm
             (if (case md of None \<Rightarrow> True | Some m \<Rightarrow> wcrt_gap sm (cp, cc, geo) < m)
              then Some (cp, cc, geo) else best)
             (if (case md of None \<Rightarrow> True | Some m \<Rightarrow> wcrt_gap sm (cp, cc, geo) < m)
              then Some (wcrt_gap sm (cp, cc, geo)) else md)
             rest)"
  by (simp only: find_strip_loop.simps Let_def crossing_def wcrt_gap_def wcrt_left_at_def
      wcrt_right_at_def fst_conv snd_conv)

lemma find_strip_loop_no_crossing:
  "\<forall>s \<in> set xs. \<not> crossing sm s \<Longrightarrow>
   find_strip_loop sm best md xs =
     (case first_minimum (wcrt_gap sm) xs of
        None \<Rightarrow> best
      | Some s \<Rightarrow> if (case md of None \<Rightarrow> True | Some m \<Rightarrow> wcrt_gap sm s < m) then Some s else best)"
proof (induction xs arbitrary: best md)
  case Nil
  show ?case by simp
next
  case (Cons x xs)
  obtain cp cc geo where x: "x = (cp, cc, geo)" by (cases x) auto
  from Cons.prems have nx: "\<not> crossing sm (cp, cc, geo)" and nxs: "\<forall>s \<in> set xs. \<not> crossing sm s"
    by (simp_all add: x)
  note IH = Cons.IH [OF nxs]
  show ?case
  proof (cases md)
    case None
    show ?thesis
      unfolding x find_strip_loop_step
      by (simp add: nx None IH split: option.split)
  next
    case (Some m)
    show ?thesis
      unfolding x find_strip_loop_step
      by (simp add: nx Some IH split: option.split) auto
  qed
qed

lemma find_strip_loop_find:
  "find_strip_loop sm best md xs =
     (case find (crossing sm) xs of
        Some s \<Rightarrow> Some s
      | None \<Rightarrow>
          (case first_minimum (wcrt_gap sm) xs of
             None \<Rightarrow> best
           | Some s \<Rightarrow>
               if (case md of None \<Rightarrow> True | Some m \<Rightarrow> wcrt_gap sm s < m) then Some s else best))"
proof (cases "find (crossing sm) xs")
  case None
  then have "\<forall>s \<in> set xs. \<not> crossing sm s" unfolding find_None_iff by blast
  from find_strip_loop_no_crossing [OF this] None show ?thesis by simp
next
  case (Some s)
  then show ?thesis
  proof (induction xs arbitrary: best md)
    case Nil
    then show ?case by simp
  next
    case (Cons x xs)
    obtain cp cc geo where x: "x = (cp, cc, geo)" by (cases x) auto
    show ?case
    proof (cases "crossing sm (cp, cc, geo)")
      case True
      with Cons.prems show ?thesis unfolding x find_strip_loop_step by simp
    next
      case False
      with Cons.prems have "find (crossing sm) xs = Some s" by (simp add: x)
      from Cons.IH [OF this] Cons.prems False show ?thesis
        unfolding x find_strip_loop_step by simp
    qed
  qed
qed

lemma find_strip_of_interest_find:
  "find_strip_of_interest sm =
     (case find (crossing sm) (strips sm) of
        Some s \<Rightarrow> Some s
      | None \<Rightarrow> first_minimum (wcrt_gap sm) (strips sm))"
  by (simp add: find_strip_of_interest_def find_strip_loop_find split: option.split)

lemma two_obstacles_fields:
  "region_bounds two_obstacles = (0, 0, 100, 100)"
  "obstacle_coords two_obstacles =
     [[(30, 10), (50, 10), (50, 20), (30, 20), (30, 10)],
      [(60, 30), (80, 30), (80, 40), (60, 40), (60, 30)]]"
  "total_obstacle_perimeter two_obstacles = 120"
  "strip_perimeter two_obstacles X (0, 0, 30, 100) = 10"
  "strip_perimeter two_obstacles X (30, 0, 50, 100) = 50"
  "strip_perimeter two_obstacles X (50, 0, 60, 100) = 10"
  "strip_perimeter two_obstacles X (60, 0, 80, 100) = 50"
  "strip_perimeter two_obstacles X (80, 0, 100, 100) = 0"
  by (simp_all add: two_obstacles_def rect_strip_geometry_def rect_ring_def rect_perimeter_in_box_def)

lemma two_obstacles_events: "define_events two_obstacles X = [0, 30, 50, 60, 80, 100]"
  by (simp add: define_events_def two_obstacles_fields)

lemma two_obstacles_strips:
  "create_strips two_obstacles X [0, 30, 50, 60, 80, 100] =
     [(0, 30, (0, 0, 30, 100)), (30, 50, (30, 0, 50, 100)), (50, 60, (50, 0, 60, 100)),
      (60, 80, (60, 0, 80, 100)), (80, 100, (80, 0, 100, 100))]"
  by (simp add: create_strips_def two_obstacles_fields)

lemma two_obstacles_manager:
  "Strip two_obstacles X =
     \<lparr> geom = two_obstacles, axis = X, events = [0, 30, 50, 60, 80, 100],
       strips = [(0, 30, (0, 0, 30, 100)), (30, 50, (30, 0, 50, 100)), (50, 60, (50, 0, 60, 100)),
                 (60, 80, (60, 0, 80, 100)), (80, 100, (80, 0, 100, 100))],
       per_strip_perimeters = [((0, 30), 10), ((30, 50), 50), ((50, 60), 10), ((60, 80), 50),
                               ((80, 100), 0)],
       cumulative_perimeters = [(30, 10), (50, 60), (60, 70), (80, 120), (100, 120)] \<rparr>"
  by (simp add: Strip_def two_obstacles_events two_obstacles_strips two_obstacles_fields Let_def)

lemma two_obstacles_wcrt:
  "wcrt_left_at (Strip two_obstacles X) 30 = sqrt 10900 + 5"
  "wcrt_right_at (Strip two_obstacles X) 30 = sqrt 14900 + 55"
  "wcrt_left_at (Strip two_obstacles X) 50 = sqrt 12500 + 30"
  "wcrt_right_at (Strip two_obstacles X) 50 = sqrt 12500 + 30"
  "wcrt_left_at (Strip two_obstacles X) 60 = sqrt 13600 + 35"
  "wcrt_right_at (Strip two_obstacles X) 60 = sqrt 11600 + 25"
  by (simp_all add: two_obstacles_manager wcrt_left_at_def wcrt_right_at_def
      calculate_diagonal_at_coordinate_def calculate_diagonal_right_def
      query_accumulated_perimeter_def P_R_def calculate_total_obstacle_perimeter_def
      two_obstacles_fields Let_def)

lemma two_obstacles_crossing:
  "\<not> crossing (Strip two_obstacles X) (0, 30, (0, 0, 30, 100))"
  "\<not> crossing (Strip two_obstacles X) (30, 50, (30, 0, 50, 100))"
  "crossing (Strip two_obstacles X) (50, 60, (50, 0, 60, 100))"
proof -
  have h: "sqrt 10900 \<le> sqrt 14900" "sqrt 11600 \<le> sqrt 13600" by simp_all
  show "\<not> crossing (Strip two_obstacles X) (0, 30, (0, 0, 30, 100))"
    unfolding crossing_def fst_conv snd_conv two_obstacles_wcrt using h by linarith
  show "\<not> crossing (Strip two_obstacles X) (30, 50, (30, 0, 50, 100))"
    unfolding crossing_def fst_conv snd_conv two_obstacles_wcrt by linarith
  show "crossing (Strip two_obstacles X) (50, 60, (50, 0, 60, 100))"
    unfolding crossing_def fst_conv snd_conv two_obstacles_wcrt using h by linarith
qed

lemma two_obstacles_strip_of_interest:
  "find_strip_of_interest (Strip two_obstacles X) = Some (50, 60, (50, 0, 60, 100))"
proof -
  have s: "strips (Strip two_obstacles X) =
     [(0, 30, (0, 0, 30, 100)), (30, 50, (30, 0, 50, 100)), (50, 60, (50, 0, 60, 100)),
      (60, 80, (60, 0, 80, 100)), (80, 100, (80, 0, 100, 100))]"
    by (simp add: two_obstacles_manager)
  note c1 = two_obstacles_crossing(1) and c2 = two_obstacles_crossing(2)
    and c3 = two_obstacles_crossing(3)
  have "find (crossing (Strip two_obstacles X)) (strips (Strip two_obstacles X))
      = Some (50, 60, (50, 0, 60, 100))"
    unfolding s by (simp add: c1 c2 c3)
  then show ?thesis by (simp add: find_strip_of_interest_find)
qed

text \<open>
  What \<open>find_strip_of_interest\<close> computes: the first strip, in list order, at whose upper
  boundary the left WCRT is strictly greater than the right WCRT; if there is no such strip,
  the first strip at which the absolute difference of the two is least; nothing for an empty
  list of strips.
\<close>

lemma strip_of_interest_rule:
  "(\<forall>i < length (strips sm).
      crossing sm (strips sm ! i) \<and> (\<forall>j < i. \<not> crossing sm (strips sm ! j)) \<longrightarrow>
      find_strip_of_interest sm = Some (strips sm ! i))
   \<and> ((\<forall>s \<in> set (strips sm). \<not> crossing sm s) \<and> strips sm \<noteq> [] \<longrightarrow>
        (\<exists>i < length (strips sm).
           find_strip_of_interest sm = Some (strips sm ! i)
           \<and> (\<forall>j < length (strips sm). wcrt_gap sm (strips sm ! i) \<le> wcrt_gap sm (strips sm ! j))
           \<and> (\<forall>j < i. wcrt_gap sm (strips sm ! i) < wcrt_gap sm (strips sm ! j))))
   \<and> (strips sm = [] \<longrightarrow> find_strip_of_interest sm = None)"
proof (intro conjI allI impI)
  fix i
  assume i: "i < length (strips sm)"
    and c: "crossing sm (strips sm ! i) \<and> (\<forall>j < i. \<not> crossing sm (strips sm ! j))"
  then have "find (crossing sm) (strips sm) = Some (strips sm ! i)"
    unfolding find_Some_iff by blast
  then show "find_strip_of_interest sm = Some (strips sm ! i)"
    by (simp add: find_strip_of_interest_find)
next
  assume a: "(\<forall>s \<in> set (strips sm). \<not> crossing sm s) \<and> strips sm \<noteq> []"
  then have f: "find (crossing sm) (strips sm) = None" unfolding find_None_iff by blast
  from a obtain s where s: "first_minimum (wcrt_gap sm) (strips sm) = Some s"
    by (cases "first_minimum (wcrt_gap sm) (strips sm)") auto
  from first_minimum_props [OF s] obtain i where i: "i < length (strips sm)" "strips sm ! i = s"
    "\<forall>j < length (strips sm). wcrt_gap sm s \<le> wcrt_gap sm (strips sm ! j)"
    "\<forall>j < i. wcrt_gap sm s < wcrt_gap sm (strips sm ! j)" by blast
  have "find_strip_of_interest sm = Some (strips sm ! i)"
    by (simp add: find_strip_of_interest_find f s i(2))
  with i show "\<exists>i < length (strips sm).
           find_strip_of_interest sm = Some (strips sm ! i)
           \<and> (\<forall>j < length (strips sm). wcrt_gap sm (strips sm ! i) \<le> wcrt_gap sm (strips sm ! j))
           \<and> (\<forall>j < i. wcrt_gap sm (strips sm ! i) < wcrt_gap sm (strips sm ! j))"
    by blast
next
  assume "strips sm = []"
  then show "find_strip_of_interest sm = None"
    by (simp add: find_strip_of_interest_def)
qed

lemma two_obstacles_g:
  "g (Strip two_obstacles X) 50 = 0"
  "0 < g (Strip two_obstacles X) 60"
proof -
  have e: "g (Strip two_obstacles X) c = wcrt_left_at (Strip two_obstacles X) c
      - wcrt_right_at (Strip two_obstacles X) c" for c
    by (simp add: g_def wcrt_left_at_def wcrt_right_at_def calculate_wcrt_left_def
        calculate_wcrt_right_def calculate_diagonal_right_def calculate_diagonal_at_coordinate_def
        P_R_def Let_def split: prod.split axis.split)
  show "g (Strip two_obstacles X) 50 = 0"
    unfolding e two_obstacles_wcrt by simp
  have h: "sqrt 11600 \<le> sqrt 13600" by simp
  show "0 < g (Strip two_obstacles X) 60"
    unfolding e two_obstacles_wcrt using h by linarith
qed

lemma two_obstacles_division_point:
  "find_optimal_division_point (Strip two_obstacles X) ''brent'' = Inr 60"
proof -
  have z: "g (Strip two_obstacles X) 50 * x < 0 \<longleftrightarrow> False" for x
    by (simp add: two_obstacles_g(1))
  show ?thesis
    by (cases "determine_case_for_strip (Strip two_obstacles X) (50, 60, (50, 0, 60, 100))")
      (simp_all add: find_optimal_division_point_def two_obstacles_strip_of_interest Let_def
        handle_case_1_def handle_case_2_def handle_case_3_def z)
qed

text \<open>
  Claim C3.  In the \<open>100 \<times> 100\<close> region with the two obstacles the left and the right WCRT
  are equal at \<open>x = 50\<close>, the upper boundary of the second strip, and the left WCRT is smaller
  at \<open>x = 30\<close>: the second strip is the first at whose upper boundary the left WCRT is
  greater than or equal to the right WCRT.  \<open>find_strip_of_interest\<close> passes over it and
  returns the third strip, and \<open>find_optimal_division_point\<close> returns \<open>60\<close>, where \<open>g\<close> is
  positive, although \<open>g(50) = 0\<close>.
\<close>

theorem strip_of_interest_balanced_boundary:
  "strips (Strip two_obstacles X) ! 1 = (30, 50, (30, 0, 50, 100))
   \<and> wcrt_left_at (Strip two_obstacles X) 30 < wcrt_right_at (Strip two_obstacles X) 30
   \<and> wcrt_left_at (Strip two_obstacles X) 50 \<ge> wcrt_right_at (Strip two_obstacles X) 50
   \<and> find_strip_of_interest (Strip two_obstacles X) = Some (50, 60, (50, 0, 60, 100))
   \<and> find_strip_of_interest (Strip two_obstacles X) \<noteq> Some (strips (Strip two_obstacles X) ! 1)
   \<and> g (Strip two_obstacles X) 50 = 0
   \<and> find_optimal_division_point (Strip two_obstacles X) ''brent'' = Inr 60
   \<and> 0 < g (Strip two_obstacles X) 60"
proof -
  have h: "sqrt 10900 \<le> sqrt 14900" by simp
  have a: "strips (Strip two_obstacles X) ! 1 = (30, 50, (30, 0, 50, 100))"
    by (simp add: two_obstacles_manager)
  have b: "wcrt_left_at (Strip two_obstacles X) 30 < wcrt_right_at (Strip two_obstacles X) 30"
    unfolding two_obstacles_wcrt using h by linarith
  have c: "wcrt_left_at (Strip two_obstacles X) 50 \<ge> wcrt_right_at (Strip two_obstacles X) 50"
    unfolding two_obstacles_wcrt by linarith
  show ?thesis
    using a b c two_obstacles_strip_of_interest two_obstacles_g two_obstacles_division_point
    by simp
qed

subsection \<open>The root bracket\<close>

lemma apply_numerical_method_invalid:
  assumes "apply_numerical_method sm method a b = Inl InvalidBracket"
  shows "g sm a * g sm b > 0"
proof (cases "method = ''brent''")
  case True
  with assms show ?thesis
    by (simp add: apply_numerical_method_def solve_for_root_brent_invalid_iff)
next
  case False
  define r where "r = solve_for_root_newton_raphson (g sm) (g_prime sm) ((1 / 2) * (a + b)) (1 / 10 ^ 7) 100"
  have d: "apply_numerical_method sm method a b =
      (case r of Inr x \<Rightarrow> Inr x
       | Inl e \<Rightarrow> solve_for_root_brent (g sm) a b (1 / 10 ^ 7) 100)"
    using False
    by (simp add: apply_numerical_method_def solve_for_root_with_defensive_newton_rhapson_def
        Let_def r_def split: sum.split)
  show ?thesis
  proof (cases r)
    case (Inl e)
    with assms d have "solve_for_root_brent (g sm) a b (1 / 10 ^ 7) 100 = Inl InvalidBracket"
      by simp
    then show ?thesis by (simp only: solve_for_root_brent_invalid_iff)
  next
    case (Inr x)
    with assms d show ?thesis by simp
  qed
qed

lemma apply_numerical_method_bracketed:
  "g sm a * g sm b \<le> 0 \<Longrightarrow> apply_numerical_method sm method a b \<noteq> Inl InvalidBracket"
  using apply_numerical_method_invalid [of sm "method" a b] by auto

lemma handle_case_1_dispatch:
  "handle_case_1 sm method c_prev c_j (g sm c_prev) (g sm c_j) = Inr c_j
   \<or> (g sm c_prev * g sm c_j \<le> 0
      \<and> handle_case_1 sm method c_prev c_j (g sm c_prev) (g sm c_j)
          = apply_numerical_method sm method c_prev c_j)"
  by (simp add: handle_case_1_def)

lemma handle_case_2_dispatch:
  "handle_case_2 sm method c_prev c_j (g sm c_prev) (g sm c_j) = Inr c_j
   \<or> (g sm c_prev * g sm c_j \<le> 0
      \<and> handle_case_2 sm method c_prev c_j (g sm c_prev) (g sm c_j)
          = apply_numerical_method sm method c_prev c_j)"
  by (simp add: handle_case_2_def)

lemma handle_case_3_dispatch:
  "handle_case_3 sm method c_prev c_j (g sm c_prev) (g sm c_j) = Inr c_j
   \<or> (g sm c_prev * g sm (c_j - 1 / 10 ^ 6) \<le> 0
      \<and> handle_case_3 sm method c_prev c_j (g sm c_prev) (g sm c_j)
          = apply_numerical_method sm method c_prev (c_j - 1 / 10 ^ 6))"
  by (simp add: handle_case_3_def Let_def)

lemma handlers_not_invalid:
  "handle_case_1 sm method c_prev c_j (g sm c_prev) (g sm c_j) \<noteq> Inl InvalidBracket"
  "handle_case_2 sm method c_prev c_j (g sm c_prev) (g sm c_j) \<noteq> Inl InvalidBracket"
  "handle_case_3 sm method c_prev c_j (g sm c_prev) (g sm c_j) \<noteq> Inl InvalidBracket"
proof -
  show "handle_case_1 sm method c_prev c_j (g sm c_prev) (g sm c_j) \<noteq> Inl InvalidBracket"
    using handle_case_1_dispatch [of sm "method" c_prev c_j]
      apply_numerical_method_bracketed [of sm c_prev c_j "method"]
    by auto
  show "handle_case_2 sm method c_prev c_j (g sm c_prev) (g sm c_j) \<noteq> Inl InvalidBracket"
    using handle_case_2_dispatch [of sm "method" c_prev c_j]
      apply_numerical_method_bracketed [of sm c_prev c_j "method"]
    by auto
  show "handle_case_3 sm method c_prev c_j (g sm c_prev) (g sm c_j) \<noteq> Inl InvalidBracket"
    using handle_case_3_dispatch [of sm "method" c_prev c_j]
      apply_numerical_method_bracketed [of sm c_prev "c_j - 1 / 10 ^ 6" "method"]
    by auto
qed

lemma find_optimal_division_point_not_invalid:
  "find_optimal_division_point sm method \<noteq> Inl InvalidBracket"
proof (cases "find_strip_of_interest sm")
  case None
  then show ?thesis by (simp add: find_optimal_division_point_def)
next
  case (Some s)
  obtain c_prev c_j geo where s: "s = (c_prev, c_j, geo)" by (cases s) auto
  show ?thesis
    using handlers_not_invalid [of sm "method" c_prev c_j]
    by (cases "determine_case_for_strip sm (c_prev, c_j, geo)")
       (simp_all add: find_optimal_division_point_def Some s Let_def)
qed

text \<open>
  Claim C6.  A case handler, called with the values of \<open>g\<close> at the ends of the strip as
  \<open>find_optimal_division_point\<close> calls it, either returns the upper boundary of the strip or
  passes a bracket \<open>[a, b]\<close> with \<open>g(a) \<cdot> g(b) \<le> 0\<close> to the numerical method; on such a
  bracket the numerical method never ends in the invalid-bracket error, so neither do the
  handlers nor \<open>find_optimal_division_point\<close>.
\<close>

theorem root_bracket:
  "(handle_case_1 sm method c_prev c_j (g sm c_prev) (g sm c_j) = Inr c_j
      \<or> (g sm c_prev * g sm c_j \<le> 0
         \<and> handle_case_1 sm method c_prev c_j (g sm c_prev) (g sm c_j)
             = apply_numerical_method sm method c_prev c_j))
   \<and> (handle_case_2 sm method c_prev c_j (g sm c_prev) (g sm c_j) = Inr c_j
      \<or> (g sm c_prev * g sm c_j \<le> 0
         \<and> handle_case_2 sm method c_prev c_j (g sm c_prev) (g sm c_j)
             = apply_numerical_method sm method c_prev c_j))
   \<and> (handle_case_3 sm method c_prev c_j (g sm c_prev) (g sm c_j) = Inr c_j
      \<or> (g sm c_prev * g sm (c_j - 1 / 10 ^ 6) \<le> 0
         \<and> handle_case_3 sm method c_prev c_j (g sm c_prev) (g sm c_j)
             = apply_numerical_method sm method c_prev (c_j - 1 / 10 ^ 6)))
   \<and> (\<forall>a b. g sm a * g sm b \<le> 0 \<longrightarrow> apply_numerical_method sm method a b \<noteq> Inl InvalidBracket)
   \<and> handle_case_1 sm method c_prev c_j (g sm c_prev) (g sm c_j) \<noteq> Inl InvalidBracket
   \<and> handle_case_2 sm method c_prev c_j (g sm c_prev) (g sm c_j) \<noteq> Inl InvalidBracket
   \<and> handle_case_3 sm method c_prev c_j (g sm c_prev) (g sm c_j) \<noteq> Inl InvalidBracket
   \<and> find_optimal_division_point sm method \<noteq> Inl InvalidBracket"
  using handle_case_1_dispatch [of sm "method" c_prev c_j]
    handle_case_2_dispatch [of sm "method" c_prev c_j]
    handle_case_3_dispatch [of sm "method" c_prev c_j]
    handlers_not_invalid [of sm "method" c_prev c_j]
    find_optimal_division_point_not_invalid [of sm "method"]
    apply_numerical_method_bracketed [of sm _ _ "method"]
  by blast

lemma centred_fields:
  "region_bounds centred_obstacle = (0, 0, 100, 100)"
  "total_obstacle_perimeter centred_obstacle = 80"
  "strip_perimeter centred_obstacle X (40, 0, 60, 100) = 60"
  "strip_perimeter centred_obstacle X (40, 0, 60 - 1 / 10 ^ 6, 100) = 2 * (20 - 1 / 10 ^ 6)"
  "obstacle_portions centred_obstacle (40, 0, 60, 100) =
     [[((40, 40), (60, 40)), ((60, 40), (60, 60)), ((60, 60), (40, 60)), ((40, 60), (40, 40))]]"
  by (simp_all add: centred_obstacle_def rect_strip_geometry_def rect_perimeter_in_box_def
      rect_portion_def Let_def)

lemma centred_manager:
  "Strip centred_obstacle X =
     \<lparr> geom = centred_obstacle, axis = X, events = [0, 40, 60, 100],
       strips = [(0, 40, (0, 0, 40, 100)), (40, 60, (40, 0, 60, 100)), (60, 100, (60, 0, 100, 100))],
       per_strip_perimeters = [((0, 40), 20), ((40, 60), 60), ((60, 100), 0)],
       cumulative_perimeters = [(40, 20), (60, 80), (100, 80)] \<rparr>"
  by (simp add: Strip_def define_events_def create_strips_def Let_def)
     (simp add: centred_obstacle_def rect_strip_geometry_def rect_perimeter_in_box_def rect_ring_def)

lemma centred_query:
  "query_accumulated_perimeter (Strip centred_obstacle X) 40 = 20"
  "query_accumulated_perimeter (Strip centred_obstacle X) 60 = 80"
  "query_accumulated_perimeter (Strip centred_obstacle X) (60 - 1 / 10 ^ 6) = 20 + 2 * (20 - 1 / 10 ^ 6)"
proof -
  show "query_accumulated_perimeter (Strip centred_obstacle X) 40 = 20"
    by (simp add: centred_manager query_accumulated_perimeter_def)
  show "query_accumulated_perimeter (Strip centred_obstacle X) 60 = 80"
    by (simp add: centred_manager query_accumulated_perimeter_def)
  have "strip_perimeter centred_obstacle X (40, 0, 59999999 / 1000000, 100) = 39999998 / 1000000"
    using centred_fields(4) by simp
  then show "query_accumulated_perimeter (Strip centred_obstacle X) (60 - 1 / 10 ^ 6)
      = 20 + 2 * (20 - 1 / 10 ^ 6)"
    by (simp add: centred_manager query_accumulated_perimeter_def create_partial_strip_def
        centred_fields(1))
qed

lemma centred_g:
  "g (Strip centred_obstacle X) c =
     sqrt (100 ^ 2 + c ^ 2) + (1 / 2) * query_accumulated_perimeter (Strip centred_obstacle X) c
     - (sqrt (100 ^ 2 + (100 - c) ^ 2)
        + (1 / 2) * (80 - query_accumulated_perimeter (Strip centred_obstacle X) c))"
proof -
  have b: "region_bounds (geom (Strip centred_obstacle X)) = (0, 0, 100, 100)"
    "axis (Strip centred_obstacle X) = X"
    "total_obstacle_perimeter (geom (Strip centred_obstacle X)) = 80"
    by (simp_all add: centred_manager centred_fields)
  show ?thesis
    by (simp add: g_def calculate_wcrt_left_def calculate_wcrt_right_def
        calculate_diagonal_at_coordinate_def calculate_total_obstacle_perimeter_def b Let_def)
qed

lemma centred_g_signs:
  "g (Strip centred_obstacle X) 40 < 0"
  "0 < g (Strip centred_obstacle X) (60 - 1 / 10 ^ 6)"
proof -
  have lo: "x \<le> y \<Longrightarrow> x + 1 / 2 * 20 - (y + 1 / 2 * (80 - 20)) < 0" for x y :: real
    by simp
  have hi: "y \<le> x \<Longrightarrow>
      0 < x + 1 / 2 * (20 + 2 * (20 - 1 / 10 ^ 6)) - (y + 1 / 2 * (80 - (20 + 2 * (20 - 1 / 10 ^ 6))))"
    for x y :: real
    by simp
  have "sqrt (100 ^ 2 + 40 ^ 2) \<le> sqrt (100 ^ 2 + (100 - 40) ^ 2 :: real)"
    by (simp only: real_sqrt_le_iff) simp
  then show "g (Strip centred_obstacle X) 40 < 0"
    unfolding centred_g centred_query by (rule lo)
  have "sqrt (100 ^ 2 + (100 - (60 - 1 / 10 ^ 6)) ^ 2) \<le> sqrt (100 ^ 2 + (60 - 1 / 10 ^ 6) ^ 2 :: real)"
    by (simp only: real_sqrt_le_iff) (simp add: power2_eq_square)
  then show "0 < g (Strip centred_obstacle X) (60 - 1 / 10 ^ 6)"
    unfolding centred_g centred_query by (rule hi)
qed

lemma centred_wcrt:
  "wcrt_left_at (Strip centred_obstacle X) 40 = sqrt 11600 + 10"
  "wcrt_right_at (Strip centred_obstacle X) 40 = sqrt 13600 + 30"
  "wcrt_left_at (Strip centred_obstacle X) 60 = sqrt 13600 + 40"
  "wcrt_right_at (Strip centred_obstacle X) 60 = sqrt 11600"
proof -
  have b: "region_bounds (geom (Strip centred_obstacle X)) = (0, 0, 100, 100)"
    "axis (Strip centred_obstacle X) = X"
    "total_obstacle_perimeter (geom (Strip centred_obstacle X)) = 80"
    by (simp_all add: centred_manager centred_fields)
  show "wcrt_left_at (Strip centred_obstacle X) 40 = sqrt 11600 + 10"
    "wcrt_right_at (Strip centred_obstacle X) 40 = sqrt 13600 + 30"
    "wcrt_left_at (Strip centred_obstacle X) 60 = sqrt 13600 + 40"
    "wcrt_right_at (Strip centred_obstacle X) 60 = sqrt 11600"
    by (simp_all add: wcrt_left_at_def wcrt_right_at_def calculate_diagonal_at_coordinate_def
        calculate_diagonal_right_def P_R_def calculate_total_obstacle_perimeter_def b
        centred_query Let_def)
qed

lemma centred_strip_of_interest:
  "find_strip_of_interest (Strip centred_obstacle X) = Some (40, 60, (40, 0, 60, 100))"
proof -
  have s: "strips (Strip centred_obstacle X) =
      [(0, 40, (0, 0, 40, 100)), (40, 60, (40, 0, 60, 100)), (60, 100, (60, 0, 100, 100))]"
    by (simp add: centred_manager)
  have h: "sqrt 11600 \<le> sqrt 13600" by simp
  have c1: "\<not> crossing (Strip centred_obstacle X) (0, 40, (0, 0, 40, 100))"
    unfolding crossing_def fst_conv snd_conv centred_wcrt using h by linarith
  have c2: "crossing (Strip centred_obstacle X) (40, 60, (40, 0, 60, 100))"
    unfolding crossing_def fst_conv snd_conv centred_wcrt using h by linarith
  have "find (crossing (Strip centred_obstacle X)) (strips (Strip centred_obstacle X))
      = Some (40, 60, (40, 0, 60, 100))"
    unfolding s by (simp add: c1 c2)
  then show ?thesis by (simp add: find_strip_of_interest_find)
qed

lemma centred_case:
  "determine_case_for_strip (Strip centred_obstacle X) (40, 60, (40, 0, 60, 100)) = Case3"
proof -
  have b: "geom (Strip centred_obstacle X) = centred_obstacle" "axis (Strip centred_obstacle X) = X"
    by (simp_all add: centred_manager)
  show ?thesis
    by (simp add: determine_case_for_strip_def b centred_fields Let_def edge_on_boundary_def)
qed

lemma centred_division_point:
  "find_optimal_division_point (Strip centred_obstacle X) ''brent''
     = apply_numerical_method (Strip centred_obstacle X) ''brent'' 40 (60 - 1 / 10 ^ 6)"
proof -
  have p: "g (Strip centred_obstacle X) 40 * g (Strip centred_obstacle X) (60 - 1 / 10 ^ 6) < 0"
    using centred_g_signs by (rule mult_neg_pos)
  have n: "\<not> g (Strip centred_obstacle X) (60 - 1 / 10 ^ 6) \<le> 0"
    using centred_g_signs(2) by simp
  have "handle_case_3 (Strip centred_obstacle X) ''brent'' 40 60
      (g (Strip centred_obstacle X) 40) (g (Strip centred_obstacle X) 60)
     = apply_numerical_method (Strip centred_obstacle X) ''brent'' 40 (60 - 1 / 10 ^ 6)"
    unfolding handle_case_3_def Let_def using p n by (simp only: if_True if_False)
  then show ?thesis
    by (simp only: find_optimal_division_point_def centred_strip_of_interest option.case
        prod.case centred_case strip_case.case Let_def)
qed

theorem root_bracket_witness:
  "g (Strip centred_obstacle X) 40 * g (Strip centred_obstacle X) (60 - 1 / 10 ^ 6) \<le> 0
   \<and> handle_case_3 (Strip centred_obstacle X) ''brent'' 40 60
        (g (Strip centred_obstacle X) 40) (g (Strip centred_obstacle X) 60)
       = apply_numerical_method (Strip centred_obstacle X) ''brent'' 40 (60 - 1 / 10 ^ 6)
   \<and> find_optimal_division_point (Strip centred_obstacle X) ''brent''
       = apply_numerical_method (Strip centred_obstacle X) ''brent'' 40 (60 - 1 / 10 ^ 6)
   \<and> apply_numerical_method (Strip centred_obstacle X) ''brent'' 40 (60 - 1 / 10 ^ 6)
       \<noteq> Inl InvalidBracket
   \<and> find_optimal_division_point (Strip centred_obstacle X) ''brent'' \<noteq> Inl InvalidBracket"
proof -
  have p: "g (Strip centred_obstacle X) 40 * g (Strip centred_obstacle X) (60 - 1 / 10 ^ 6) < 0"
    using centred_g_signs by (rule mult_neg_pos)
  have n: "\<not> g (Strip centred_obstacle X) (60 - 1 / 10 ^ 6) \<le> 0"
    using centred_g_signs(2) by simp
  have h: "handle_case_3 (Strip centred_obstacle X) ''brent'' 40 60
      (g (Strip centred_obstacle X) 40) (g (Strip centred_obstacle X) 60)
     = apply_numerical_method (Strip centred_obstacle X) ''brent'' 40 (60 - 1 / 10 ^ 6)"
    unfolding handle_case_3_def Let_def using p n by (simp only: if_True if_False)
  from p have le: "g (Strip centred_obstacle X) 40 * g (Strip centred_obstacle X) (60 - 1 / 10 ^ 6) \<le> 0"
    by simp
  from root_bracket [of "Strip centred_obstacle X" "''brent''" 40 60] le
  have a: "apply_numerical_method (Strip centred_obstacle X) ''brent'' 40 (60 - 1 / 10 ^ 6)
       \<noteq> Inl InvalidBracket"
    and f: "find_optimal_division_point (Strip centred_obstacle X) ''brent'' \<noteq> Inl InvalidBracket"
    by blast+
  show ?thesis
    using le h a f centred_division_point by (simp only: simp_thms)
qed

section \<open>The accumulated perimeter\<close>







































end
